theory Spec2Isabelle
  imports Main "HOL-Library.Word"
begin

unbundle bit_operations_syntax

section \<open>The reboot scheduler service (reboot.go)\<close>

text \<open>
  A shallow embedding of \<^verbatim>\<open>src/reboot.go\<close>: the configuration loader, the computation of
  the sleep duration, the reboot command, and the \<^verbatim>\<open>Execute\<close> method with its two
  goroutines as an interleaving step function.

  Functions of the Go standard library and of the packages the program imports
  (\<^verbatim>\<open>time\<close>, \<^verbatim>\<open>os\<close>, \<^verbatim>\<open>log\<close>, \<^verbatim>\<open>svc\<close>, \<^verbatim>\<open>yaml\<close>) are not part of the repository. They are
  modelled by what their documentation says, as far as the program uses them, and each such
  definition says so.
\<close>

subsection \<open>Configuration and files\<close>

text \<open>
  \<^verbatim>\<open>var config struct { AfterDays int; At string }\<close> (lines 20-23). Go's \<^verbatim>\<open>int\<close> has 64 bits
  on the platforms the service is built for: \<open>AfterDays\<close> holds a value from \<open>- 2^63\<close> to
  \<open>2^63 - 1\<close>, and sums of such values wrap around (\<open>wrap64\<close> below).
\<close>

record config =
  AfterDays :: int
  At :: string

definition zeroConfig :: config where
  "zeroConfig = \<lparr>AfterDays = 0, At = []\<rparr>"

text \<open>
  The part of the file system the program touches: the contents of the files by path, and
  whether the operating system lets the process write or read a path.
\<close>

record filesys =
  files :: "string \<Rightarrow> string option"
  writable :: "string \<Rightarrow> bool"
  readable :: "string \<Rightarrow> bool"

text \<open>Every way the program ends through \<^verbatim>\<open>log.Fatalf\<close>, by the message it prints.\<close>

datatype fatal =
    FailedOpenLogFile
  | FailedCreateDefaultConfig
  | FailedReadConfig
  | FailedParseConfig
  | FailedParseTime
  | FailedShutdownCommand

text \<open>
  The lines handed to the logger, by the statement that prints them. \<open>RebootAt t\<close> carries
  the instant that line 114 formats. Where the logger's writers deliver the lines is
  outside the model.
\<close>

datatype log_msg =
    DefaultConfigCreated
  | ServiceStarting
  | RebootAt int
  | RebootingSystem
  | RebootInitiated
  | ServiceStopping
  | Fatalf fatal

text \<open>\<^verbatim>\<open>exePath = "C:/"\<close> joined with the file names (lines 29, 39, 91).\<close>

definition exePath :: string where
  "exePath = ''C:/''"

definition logFilePath :: string where
  "logFilePath = exePath @ ''reboot_log.txt''"

definition configPath :: string where
  "configPath = exePath @ ''config.yaml''"

definition serviceLogPath :: string where
  "serviceLogPath = exePath @ ''service_log.txt''"

text \<open>
  Line 41: the bytes \<^verbatim>\<open>after_days: 300\nat: "23:50"\<close>, with the line feed and the two double
  quotes written as character codes.
\<close>

definition defaultConfig :: string where
  "defaultConfig =
     ''after_days: 300'' @ [CHR 0x0A] @ ''at: '' @ [CHR 0x22] @ ''23:50'' @ [CHR 0x22]"

text \<open>
  \<^verbatim>\<open>os.OpenFile(path, O_APPEND|O_CREATE|O_WRONLY, 0644)\<close> on a path the process may write:
  the file exists afterwards, empty if it was missing. What the logger appends to it is
  kept in the state's log, not in \<open>files\<close>.
\<close>

definition openAppend :: "string \<Rightarrow> filesys \<Rightarrow> filesys" where
  "openAppend p f =
     (case files f p of
        None \<Rightarrow> f\<lparr>files := (files f)(p \<mapsto> [])\<rparr>
      | Some _ \<Rightarrow> f)"

text \<open>
  \<^verbatim>\<open>loadConfig\<close> (lines 27-58). \<^verbatim>\<open>yaml.Unmarshal\<close> belongs to \<^verbatim>\<open>gopkg.in/yaml.v2\<close>, so the
  decoder is a parameter: \<open>unmarshal data c\<close> is \<open>None\<close> when decoding fails and the
  updated configuration otherwise.

  \<open>readConfig\<close> is the second half, lines 49-57: the file is read and decoded into the
  global variable.
\<close>

definition readConfig ::
  "(string \<Rightarrow> config \<Rightarrow> config option) \<Rightarrow> filesys \<Rightarrow> config \<Rightarrow> fatal + config" where
  "readConfig unmarshal f c =
     (case (if readable f configPath then files f configPath else None) of
        None \<Rightarrow> Inl FailedReadConfig
      | Some data \<Rightarrow>
          (case unmarshal data c of
             None \<Rightarrow> Inl FailedParseConfig
           | Some c' \<Rightarrow> Inr c'))"

text \<open>
  The result of \<open>loadConfig\<close> is the error the function dies with or the configuration it
  leaves in the global variable, the file system afterwards, and the lines logged on the
  way (the fatal line is logged by the caller of this model, together with the exit).
\<close>

definition loadConfig ::
  "(string \<Rightarrow> config \<Rightarrow> config option) \<Rightarrow> filesys \<Rightarrow> config
     \<Rightarrow> (fatal + config) \<times> filesys \<times> log_msg list" where
  "loadConfig unmarshal f c =
     (if \<not> writable f logFilePath then (Inl FailedOpenLogFile, f, [])
      else
        let f1 = openAppend logFilePath f in
        if files f1 configPath = None
        then
          if \<not> writable f1 configPath then (Inl FailedCreateDefaultConfig, f1, [])
          else
            let f2 = f1\<lparr>files := (files f1)(configPath \<mapsto> defaultConfig)\<rparr>
            in (readConfig unmarshal f2 c, f2, [DefaultConfigCreated])
        else (readConfig unmarshal f1 c, f1, []))"

subsection \<open>Calendar and clock (package time)\<close>

text \<open>
  An instant is a number of nanoseconds since 1970-01-01T00:00:00 UTC. The library counts
  seconds and days in 64-bit integers; \<open>wrap64\<close> is the value a signed 64-bit integer
  holds after an operation whose exact result is \<open>x\<close>.
\<close>

definition wrap64 :: "int \<Rightarrow> int" where
  "wrap64 x = (x + 2 ^ 63) mod 2 ^ 64 - 2 ^ 63"

text \<open>The smallest and the largest 64-bit second count (the library's \<^verbatim>\<open>alpha\<close> and
  \<^verbatim>\<open>omega\<close>).\<close>

definition alpha :: int where
  "alpha = - (2 ^ 63)"

definition omega :: int where
  "omega = 2 ^ 63 - 1"

definition Second :: int where
  "Second = 1000000000"

definition secondsPerDay :: int where
  "secondsPerDay = 86400"

definition isLeap :: "int \<Rightarrow> bool" where
  "isLeap year \<longleftrightarrow> year mod 4 = 0 \<and> (year mod 100 \<noteq> 0 \<or> year mod 400 = 0)"

text \<open>Days of a non-leap year before the first of month \<open>m\<close> (January is 1).\<close>

definition daysBefore :: "int \<Rightarrow> int" where
  "daysBefore m =
     (if m \<le> 1 then 0 else if m = 2 then 31 else if m = 3 then 59 else if m = 4 then 90
      else if m = 5 then 120 else if m = 6 then 151 else if m = 7 then 181
      else if m = 8 then 212 else if m = 9 then 243 else if m = 10 then 273
      else if m = 11 then 304 else if m = 12 then 334 else 365)"

definition daysBeforeIn :: "int \<Rightarrow> int \<Rightarrow> int" where
  "daysBeforeIn year m = daysBefore m + (if isLeap year \<and> 3 \<le> m then 1 else 0)"

text \<open>Days from 0001-01-01 to the first of January of \<open>year\<close> (proleptic Gregorian).\<close>

definition daysBeforeYear :: "int \<Rightarrow> int" where
  "daysBeforeYear year =
     365 * (year - 1) + (year - 1) div 4 - (year - 1) div 100 + (year - 1) div 400"

definition unixEpochDays :: int where
  "unixEpochDays = 719162"

text \<open>
  Days from 1970-01-01 to the given date. The day of the month may lie outside the month:
  day 0 is the last day of the month before, day 32 of January is the first of February.
\<close>

definition daysSinceEpoch :: "int \<Rightarrow> int \<Rightarrow> int \<Rightarrow> int" where
  "daysSinceEpoch year m day =
     daysBeforeYear year + daysBeforeIn year m + (day - 1) - unixEpochDays"

text \<open>The year of a day number and the day within that year (0 is the first of January).\<close>

definition yearOfDays :: "int \<Rightarrow> int \<times> int" where
  "yearOfDays z =
     (let n = z + unixEpochDays;
          n400 = n div 146097; r = n mod 146097;
          n100 = min 3 (r div 36524); r1 = r - n100 * 36524;
          n4 = r1 div 1461; r2 = r1 mod 1461;
          n1 = min 3 (r2 div 365); yday = r2 - n1 * 365
      in (400 * n400 + 100 * n100 + 4 * n4 + n1 + 1, yday))"

text \<open>The month holding day \<open>yday\<close> of \<open>year\<close>: the last month that begins on or before it.\<close>

definition monthOfYday :: "int \<Rightarrow> int \<Rightarrow> int" where
  "monthOfYday year yday =
     (if daysBeforeIn year 12 \<le> yday then 12
      else if daysBeforeIn year 11 \<le> yday then 11
      else if daysBeforeIn year 10 \<le> yday then 10
      else if daysBeforeIn year 9 \<le> yday then 9
      else if daysBeforeIn year 8 \<le> yday then 8
      else if daysBeforeIn year 7 \<le> yday then 7
      else if daysBeforeIn year 6 \<le> yday then 6
      else if daysBeforeIn year 5 \<le> yday then 5
      else if daysBeforeIn year 4 \<le> yday then 4
      else if daysBeforeIn year 3 \<le> yday then 3
      else if daysBeforeIn year 2 \<le> yday then 2
      else 1)"

text \<open>Year, month and day of the month of a day number.\<close>

definition civilOfDays :: "int \<Rightarrow> int \<times> int \<times> int" where
  "civilOfDays z =
     (let (year, yday) = yearOfDays z;
          m = monthOfYday year yday
      in (year, m, yday - daysBeforeIn year m + 1))"

text \<open>
  \<^verbatim>\<open>time.Location\<close>: the offset east of UTC, in seconds, in force before the first
  transition, and the transitions in ascending order of time, each the Unix second at
  which it happens and the offset in force from then on. (The library keeps the offsets
  in a table of zones and an index per transition; the zone names and the rule that
  extends the table past its last transition are left out.)
\<close>

record Location =
  zone0 :: int
  tx :: "(int \<times> int) list"

definition UTC :: Location where
  "UTC = \<lparr>zone0 = 0, tx = []\<rparr>"

text \<open>
  \<^verbatim>\<open>l.lookup(sec)\<close>: the offset in force at Unix second \<open>sec\<close>, and the seconds \<open>start\<close> and
  \<open>until\<close> between which it is in force: the last transition at or before \<open>sec\<close> and the first
  one after it.
\<close>

fun lookupFrom :: "int \<Rightarrow> int \<times> int \<times> int \<Rightarrow> (int \<times> int) list \<Rightarrow> int \<times> int \<times> int" where
  "lookupFrom sec (offset, start, until) [] = (offset, start, until)"
| "lookupFrom sec (offset, start, until) ((w, off) # rest) =
     (if sec < w then (offset, start, w) else lookupFrom sec (off, w, until) rest)"

definition lookup :: "Location \<Rightarrow> int \<Rightarrow> int \<times> int \<times> int" where
  "lookup loc sec = lookupFrom sec (zone0 loc, alpha, omega) (tx loc)"

definition offsetAt :: "Location \<Rightarrow> int \<Rightarrow> int" where
  "offsetAt loc sec = fst (lookup loc sec)"

text \<open>The day number of an instant on the wall clock of the location, and the seconds since
  the midnight of that day.\<close>

definition localDays :: "Location \<Rightarrow> int \<Rightarrow> int" where
  "localDays loc t = (t div Second + offsetAt loc (t div Second)) div secondsPerDay"

definition localSecondOfDay :: "Location \<Rightarrow> int \<Rightarrow> int" where
  "localSecondOfDay loc t = (t div Second + offsetAt loc (t div Second)) mod secondsPerDay"

text \<open>\<^verbatim>\<open>t.Year()\<close>, \<^verbatim>\<open>t.Month()\<close>, \<^verbatim>\<open>t.Day()\<close> of an instant in the location.\<close>

definition Year :: "Location \<Rightarrow> int \<Rightarrow> int" where
  "Year loc t = fst (civilOfDays (localDays loc t))"

definition Month :: "Location \<Rightarrow> int \<Rightarrow> int" where
  "Month loc t = fst (snd (civilOfDays (localDays loc t)))"

definition Day :: "Location \<Rightarrow> int \<Rightarrow> int" where
  "Day loc t = snd (snd (civilOfDays (localDays loc t)))"

text \<open>
  The end of \<^verbatim>\<open>time.Date\<close>: from the wall-clock reading, taken as if it were a Unix second,
  to the Unix second it stands for in the location. The offset is looked up at the
  reading itself; if the instant this gives lies outside the period of that offset, the
  offset in force at that instant is taken instead. An offset of zero is used as it is.
\<close>

definition resolve :: "Location \<Rightarrow> int \<Rightarrow> int" where
  "resolve loc unix =
     (case lookup loc unix of
        (offset, start, until) \<Rightarrow>
          if offset \<noteq> 0
          then
            let utc = wrap64 (unix - offset);
                offset' = (if utc < start \<or> until \<le> utc then offsetAt loc utc else offset)
            in wrap64 (unix - offset')
          else unix)"

text \<open>
  \<^verbatim>\<open>unixTime(sec, nsec)\<close>: a \<^verbatim>\<open>Time\<close> keeps its seconds as a 64-bit count from the year 1.
\<close>

definition unixToInternal :: int where
  "unixToInternal = 62135596800"

definition unixTime :: "int \<Rightarrow> int \<Rightarrow> int" where
  "unixTime sec nsec = (wrap64 (sec + unixToInternal) - unixToInternal) * Second + nsec"

text \<open>
  \<^verbatim>\<open>time.Date(year, month, day, hour, min, sec, nsec, loc)\<close>: values outside their usual
  ranges are normalised, each overflowing into the next larger unit (the library's
  \<^verbatim>\<open>norm\<close> is floor division). The days before the year and the month, the day and the
  time of day are then added up as seconds in 64 bits. For a year within the library's
  range the sum is the exact one wrapped around once, since the day enters it only
  through additions and the multiplication by 86400; this holds also for a day that is
  itself the result of a wrapped addition.
\<close>

definition Date ::
  "int \<Rightarrow> int \<Rightarrow> int \<Rightarrow> int \<Rightarrow> int \<Rightarrow> int \<Rightarrow> int \<Rightarrow> Location \<Rightarrow> int" where
  "Date year month day hour minute sec nsec loc =
     (let m0 = month - 1;
          year' = year + m0 div 12; month' = m0 mod 12 + 1;
          sec1 = sec + nsec div Second; nsec' = nsec mod Second;
          min1 = minute + sec1 div 60; sec' = sec1 mod 60;
          hour1 = hour + min1 div 60; min' = min1 mod 60;
          day1 = day + hour1 div 24; hour' = hour1 mod 24;
          d = daysSinceEpoch year' month' day1;
          unix = wrap64 (d * secondsPerDay + hour' * 3600 + min' * 60 + sec')
      in unixTime (resolve loc unix) nsec')"

text \<open>
  \<^verbatim>\<open>time.Duration\<close> is a signed 64-bit count of nanoseconds, and \<^verbatim>\<open>t.Sub(u)\<close> returns the
  largest or smallest duration when the difference does not fit.
\<close>

definition maxDuration :: int where
  "maxDuration = 2 ^ 63 - 1"

definition minDuration :: int where
  "minDuration = - (2 ^ 63)"

definition Sub :: "int \<Rightarrow> int \<Rightarrow> int" where
  "Sub t u =
     (if t - u > maxDuration then maxDuration
      else if t - u < minDuration then minDuration
      else t - u)"

text \<open>
  \<^verbatim>\<open>time.Parse("15:04", s)\<close>, reduced to the hour and the minute the program reads from the
  result. The layout is an hour of one or two digits (\<^verbatim>\<open>getnum\<close> not fixed) below 24, a
  colon, a minute of exactly two digits (\<^verbatim>\<open>getnum\<close> fixed) below 60, and nothing after it.
\<close>

definition isDigit :: "char \<Rightarrow> bool" where
  "isDigit c \<longleftrightarrow> 48 \<le> (of_char c :: nat) \<and> (of_char c :: nat) \<le> 57"

definition digitVal :: "char \<Rightarrow> int" where
  "digitVal c = int (of_char c) - 48"

fun getnum :: "string \<Rightarrow> bool \<Rightarrow> (int \<times> string) option" where
  "getnum [] fixed = None"
| "getnum [c] fixed =
     (if \<not> isDigit c then None
      else if fixed then None
      else Some (digitVal c, []))"
| "getnum (c # c' # rest) fixed =
     (if \<not> isDigit c then None
      else if \<not> isDigit c' then (if fixed then None else Some (digitVal c, c' # rest))
      else Some (digitVal c * 10 + digitVal c', rest))"

definition parseClock :: "string \<Rightarrow> (int \<times> int) option" where
  "parseClock s =
     (case getnum s False of
        None \<Rightarrow> None
      | Some (hour, v1) \<Rightarrow>
          if 24 \<le> hour then None
          else
            (case v1 of
               [] \<Rightarrow> None
             | c # v2 \<Rightarrow>
                 if c \<noteq> CHR '':'' then None
                 else
                   (case getnum v2 True of
                      None \<Rightarrow> None
                    | Some (minute, v3) \<Rightarrow>
                        if 60 \<le> minute then None
                        else if v3 \<noteq> [] then None
                        else Some (hour, minute))))"

text \<open>
  \<^verbatim>\<open>calculateSleepDuration\<close> (lines 61-70), with the configuration, the location of
  \<^verbatim>\<open>now\<close> and the reading of \<^verbatim>\<open>time.Now()\<close> as arguments. \<open>Inl FailedParseTime\<close> is the
  \<^verbatim>\<open>log.Fatalf\<close> of line 65. The sum \<^verbatim>\<open>now.Day()+config.AfterDays\<close> of line 68 is an addition
  of Go \<^verbatim>\<open>int\<close>s.
\<close>

definition restartDateTime :: "config \<Rightarrow> Location \<Rightarrow> int \<Rightarrow> int \<Rightarrow> int \<Rightarrow> int" where
  "restartDateTime c loc now hour minute =
     Date (Year loc now) (Month loc now) (wrap64 (Day loc now + AfterDays c)) hour minute 0 0
       loc"

definition calculateSleepDuration :: "config \<Rightarrow> Location \<Rightarrow> int \<Rightarrow> fatal + int" where
  "calculateSleepDuration c loc now =
     (case parseClock (At c) of
        None \<Rightarrow> Inl FailedParseTime
      | Some (hour, minute) \<Rightarrow> Inr (Sub (restartDateTime c loc now hour minute) now))"

subsection \<open>The reboot command\<close>

text \<open>
  What the program cannot decide itself: the local time zone, whether the
  \<^verbatim>\<open>shutdown /r /t 10\<close> command of line 75 runs without an error, and the YAML decoder.
\<close>

record env =
  location :: Location
  shutdown_ok :: bool
  yaml :: "string \<Rightarrow> config \<Rightarrow> config option"

subsection \<open>The service control protocol (package svc)\<close>

text \<open>
  \<^verbatim>\<open>svc.State\<close>, \<^verbatim>\<open>svc.Status\<close> with the two fields the program sets, \<^verbatim>\<open>svc.Cmd\<close> and
  \<^verbatim>\<open>svc.ChangeRequest\<close> with the two fields the program reads, \<^verbatim>\<open>svc.AcceptStop\<close> and
  \<^verbatim>\<open>svc.AcceptShutdown\<close>.
\<close>

datatype svc_State =
    Stopped
  | StartPending
  | StopPending
  | Running
  | ContinuePending
  | PausePending
  | Paused

record Status =
  State :: svc_State
  Accepts :: "32 word"

datatype Cmd =
    Stop
  | Pause
  | Continue
  | Interrogate
  | Shutdown
  | OtherCmd nat

record ChangeRequest =
  Cmd :: Cmd
  CurrentStatus :: Status

definition AcceptStop :: "32 word" where
  "AcceptStop = 1"

definition AcceptShutdown :: "32 word" where
  "AcceptShutdown = 4"

definition cmdsAccepted :: "32 word" where
  "cmdsAccepted = AcceptStop OR AcceptShutdown"

subsection \<open>Execute: the control loop and the timer goroutine\<close>

text \<open>
  Where the goroutine running \<^verbatim>\<open>Execute\<close> stands (lines 87-149). Each constructor is the
  statement it executes next; statements that cannot block and touch nothing the other
  goroutine reads are taken together with the one before.
  \<^item> \<open>M_OpenLog\<close>: lines 91-100;
  \<^item> \<open>M_SendStartPending\<close>: the send of line 103;
  \<^item> \<open>M_LoadConfig\<close>: lines 105-108;
  \<^item> \<open>M_Spawn\<close>: lines 111-124, creating \<^verbatim>\<open>done\<close> and starting the goroutine;
  \<^item> \<open>M_SendRunning\<close>: the send of line 127;
  \<^item> \<open>M_Select\<close>: blocked in the \<^verbatim>\<open>select\<close> of line 132;
  \<^item> \<open>M_Reply st\<close>: the send of line 136;
  \<^item> \<open>M_SendStopPending\<close>: the send of line 146;
  \<^item> \<open>M_LogStopping\<close>: lines 147-148;
  \<^item> \<open>M_Returned ssec errno\<close>: \<^verbatim>\<open>Execute\<close> has returned these two values.
\<close>

datatype main_pc =
    M_OpenLog
  | M_SendStartPending
  | M_LoadConfig
  | M_Spawn
  | M_SendRunning
  | M_Select
  | M_Reply Status
  | M_SendStopPending
  | M_LogStopping
  | M_Returned bool nat

text \<open>
  Where the goroutine of lines 112-124 stands.
  \<^item> \<open>W_Idle\<close>: not started yet;
  \<^item> \<open>W_Calc\<close>: line 113;
  \<^item> \<open>W_Log d\<close>: line 114, with the sleep duration;
  \<^item> \<open>W_NewTimer d\<close>: line 117;
  \<^item> \<open>W_Select t\<close>: blocked in the \<^verbatim>\<open>select\<close> of line 118, the timer due at instant \<open>t\<close>;
  \<^item> \<open>W_Reboot\<close>: the timer's case was taken, \<^verbatim>\<open>reboot()\<close> of line 120 comes next;
  \<^item> \<open>W_Cancelled\<close>: the \<^verbatim>\<open>done\<close> case was taken and the timer stopped (line 122);
  \<^item> \<open>W_Finished\<close>: \<^verbatim>\<open>reboot()\<close> has run.
\<close>

datatype worker_pc =
    W_Idle
  | W_Calc
  | W_Log int
  | W_NewTimer int
  | W_Select int
  | W_Reboot
  | W_Cancelled
  | W_Finished

text \<open>
  The state of the process. \<open>clock\<close> is the reading of the system clock; \<open>done_ready\<close>
  says whether a receive from the channel \<^verbatim>\<open>done\<close> can complete (the channel was closed or a
  sender waits); \<open>reported\<close> holds the values sent on \<^verbatim>\<open>status\<close>, oldest first; \<open>reboots\<close>
  counts the runs of the shutdown command; \<open>exited\<close> is the exit code once the process
  has ended.
\<close>

record state =
  clock :: int
  mpc :: main_pc
  wpc :: worker_pc
  done_ready :: bool
  reported :: "Status list"
  reboots :: nat
  logged :: "log_msg list"
  exited :: "nat option"
  cfg :: config
  fs :: filesys

definition init :: "int \<Rightarrow> filesys \<Rightarrow> state" where
  "init t f =
     \<lparr>clock = t, mpc = M_OpenLog, wpc = W_Idle, done_ready = False, reported = [],
      reboots = 0, logged = [], exited = None, cfg = zeroConfig, fs = f\<rparr>"

definition println :: "log_msg \<Rightarrow> state \<Rightarrow> state" where
  "println m s = s\<lparr>logged := logged s @ [m]\<rparr>"

text \<open>\<^verbatim>\<open>log.Fatalf\<close>: the line is logged and the process ends with exit code 1.\<close>

definition fatalf :: "fatal \<Rightarrow> state \<Rightarrow> state" where
  "fatalf e s = s\<lparr>logged := logged s @ [Fatalf e], exited := Some 1\<rparr>"

definition send_status :: "Status \<Rightarrow> state \<Rightarrow> state" where
  "send_status st s = s\<lparr>reported := reported s @ [st]\<rparr>"

text \<open>\<^verbatim>\<open>reboot\<close> (lines 73-81).\<close>

definition reboot :: "env \<Rightarrow> state \<Rightarrow> state" where
  "reboot e s =
     (let s1 = println RebootingSystem s;
          s2 = s1\<lparr>reboots := reboots s1 + 1\<rparr>
      in if shutdown_ok e then println RebootInitiated s2
         else fatalf FailedShutdownCommand s2)"

text \<open>
  The status the service manager's side of \<^verbatim>\<open>svc\<close> puts into the \<^verbatim>\<open>CurrentStatus\<close> of a
  request: the last one the handler reported.
\<close>

definition last_status :: "state \<Rightarrow> Status" where
  "last_status s =
     (if reported s = [] then \<lparr>State = Stopped, Accepts = 0\<rparr> else last (reported s))"

text \<open>The \<^verbatim>\<open>switch\<close> of lines 134-139 on a request received from \<^verbatim>\<open>req\<close>.\<close>

definition recv_req :: "ChangeRequest \<Rightarrow> state \<Rightarrow> state" where
  "recv_req c s =
     (case Cmd c of
        Interrogate \<Rightarrow> s\<lparr>mpc := M_Reply (CurrentStatus c)\<rparr>
      | Stop \<Rightarrow> s\<lparr>mpc := M_SendStopPending\<rparr>
      | Shutdown \<Rightarrow> s\<lparr>mpc := M_SendStopPending\<rparr>
      | _ \<Rightarrow> s)"

text \<open>
  One step of the goroutine running \<^verbatim>\<open>Execute\<close>, \<open>None\<close> where it is blocked. After
  \<^verbatim>\<open>Execute\<close> has returned, the step is the return of \<^verbatim>\<open>svc.Run\<close> and of \<^verbatim>\<open>main\<close>: the
  process ends with exit code 0.
\<close>

definition main_step :: "env \<Rightarrow> state \<Rightarrow> state option" where
  "main_step e s =
     (case mpc s of
        M_OpenLog \<Rightarrow>
          if writable (fs s) serviceLogPath
          then Some (s\<lparr>fs := openAppend serviceLogPath (fs s), mpc := M_SendStartPending\<rparr>)
          else Some (s\<lparr>mpc := M_Returned False 1\<rparr>)
      | M_SendStartPending \<Rightarrow>
          Some ((send_status \<lparr>State = StartPending, Accepts = 0\<rparr> s)\<lparr>mpc := M_LoadConfig\<rparr>)
      | M_LoadConfig \<Rightarrow>
          (let s1 = println ServiceStarting s in
           case loadConfig (yaml e) (fs s1) (cfg s1) of
             (r, f, msgs) \<Rightarrow>
               (let s2 = s1\<lparr>fs := f, logged := logged s1 @ msgs\<rparr> in
                case r of
                  Inl err \<Rightarrow> Some (fatalf err s2)
                | Inr c \<Rightarrow> Some (s2\<lparr>cfg := c, mpc := M_Spawn\<rparr>)))
      | M_Spawn \<Rightarrow> Some (s\<lparr>done_ready := False, wpc := W_Calc, mpc := M_SendRunning\<rparr>)
      | M_SendRunning \<Rightarrow>
          Some ((send_status \<lparr>State = Running, Accepts = cmdsAccepted\<rparr> s)\<lparr>mpc := M_Select\<rparr>)
      | M_Select \<Rightarrow> None
      | M_Reply st \<Rightarrow> Some ((send_status st s)\<lparr>mpc := M_Select\<rparr>)
      | M_SendStopPending \<Rightarrow>
          Some ((send_status \<lparr>State = StopPending, Accepts = 0\<rparr> s)\<lparr>mpc := M_LogStopping\<rparr>)
      | M_LogStopping \<Rightarrow> Some ((println ServiceStopping s)\<lparr>mpc := M_Returned False 0\<rparr>)
      | M_Returned ssec errno \<Rightarrow> Some (s\<lparr>exited := Some 0\<rparr>))"

text \<open>
  One step of the timer goroutine, \<open>None\<close> where it is blocked or has ended. In the
  \<^verbatim>\<open>select\<close> this is the case \<^verbatim>\<open><-timer.C\<close>, which can be taken once the clock has reached the
  instant the timer is due; a timer armed with a duration that is not positive is due at
  once.
\<close>

definition worker_step :: "env \<Rightarrow> state \<Rightarrow> state option" where
  "worker_step e s =
     (case wpc s of
        W_Idle \<Rightarrow> None
      | W_Calc \<Rightarrow>
          (case calculateSleepDuration (cfg s) (location e) (clock s) of
             Inl err \<Rightarrow> Some (fatalf err s)
           | Inr d \<Rightarrow> Some (s\<lparr>wpc := W_Log d\<rparr>))
      | W_Log d \<Rightarrow> Some ((println (RebootAt (clock s + d)) s)\<lparr>wpc := W_NewTimer d\<rparr>)
      | W_NewTimer d \<Rightarrow> Some (s\<lparr>wpc := W_Select (clock s + d)\<rparr>)
      | W_Select t \<Rightarrow> if t \<le> clock s then Some (s\<lparr>wpc := W_Reboot\<rparr>) else None
      | W_Reboot \<Rightarrow> Some ((reboot e s)\<lparr>wpc := W_Finished\<rparr>)
      | W_Cancelled \<Rightarrow> None
      | W_Finished \<Rightarrow> None)"

text \<open>
  What can happen next.
  \<^item> \<open>Tick n\<close>: the clock advances by \<open>n\<close> nanoseconds;
  \<^item> \<open>Main\<close>: the goroutine running \<^verbatim>\<open>Execute\<close> takes a step;
  \<^item> \<open>Worker\<close>: the timer goroutine takes a step;
  \<^item> \<open>Deliver c\<close>: the service manager sends command \<open>c\<close> and the \<^verbatim>\<open>select\<close> of line 132
    receives it from \<^verbatim>\<open>req\<close> (line 133);
  \<^item> \<open>MainDone\<close>: the \<^verbatim>\<open>select\<close> of line 132 receives from \<^verbatim>\<open>done\<close> (line 140);
  \<^item> \<open>WorkerDone\<close>: the \<^verbatim>\<open>select\<close> of line 118 receives from \<^verbatim>\<open>done\<close> (line 121).
\<close>

datatype action =
    Tick nat
  | Main
  | Worker
  | Deliver Cmd
  | MainDone
  | WorkerDone

text \<open>One step of the process; \<open>None\<close> when the action cannot happen in this state. A
  process that has ended takes no step. A request is received only by the \<^verbatim>\<open>select\<close> of
  line 132, and carries the last status reported as its \<^verbatim>\<open>CurrentStatus\<close>.\<close>

definition step :: "env \<Rightarrow> action \<Rightarrow> state \<Rightarrow> state option" where
  "step e a s =
     (if exited s \<noteq> None then None
      else
        (case a of
           Tick n \<Rightarrow> Some (s\<lparr>clock := clock s + int n\<rparr>)
         | Main \<Rightarrow> main_step e s
         | Worker \<Rightarrow> worker_step e s
         | Deliver c \<Rightarrow>
             if mpc s = M_Select
             then Some (recv_req \<lparr>Cmd = c, CurrentStatus = last_status s\<rparr> s)
             else None
         | MainDone \<Rightarrow>
             if mpc s = M_Select \<and> done_ready s
             then Some (s\<lparr>mpc := M_SendStopPending\<rparr>)
             else None
         | WorkerDone \<Rightarrow>
             (case wpc s of
                W_Select t \<Rightarrow> if done_ready s then Some (s\<lparr>wpc := W_Cancelled\<rparr>) else None
              | _ \<Rightarrow> None)))"

text \<open>A run: the actions of a schedule one after the other.\<close>

fun exec :: "env \<Rightarrow> action list \<Rightarrow> state \<Rightarrow> state option" where
  "exec e [] s = Some s"
| "exec e (a # as) s = (case step e a s of None \<Rightarrow> None | Some s' \<Rightarrow> exec e as s')"

text \<open>
  The lifecycle the service manager sees: the states reported on \<^verbatim>\<open>status\<close>, and \<open>Stopped\<close>
  once \<^verbatim>\<open>Execute\<close> has returned.
\<close>

definition lifecycle :: "state \<Rightarrow> svc_State list" where
  "lifecycle s =
     map State (reported s) @ (case mpc s of M_Returned ssec errno \<Rightarrow> [Stopped] | _ \<Rightarrow> [])"

subsection \<open>Invariants and sample inputs\<close>

text \<open>Whether the goroutine running \<^verbatim>\<open>Execute\<close> is past line 112, where the timer
  goroutine starts.\<close>

definition spawned :: "main_pc \<Rightarrow> bool" where
  "spawned pc =
     (case pc of
        M_OpenLog \<Rightarrow> False
      | M_SendStartPending \<Rightarrow> False
      | M_LoadConfig \<Rightarrow> False
      | M_Spawn \<Rightarrow> False
      | M_Returned ssec errno \<Rightarrow> errno = 0
      | _ \<Rightarrow> True)"

text \<open>
  Nothing can be received from \<^verbatim>\<open>done\<close>, so the timer is never stopped; the shutdown
  command has run at most once, and not
  at all while the timer goroutine has not come back from \<^verbatim>\<open>reboot()\<close>; the timer goroutine
  does not exist before it is started.
\<close>

definition once_inv :: "state \<Rightarrow> bool" where
  "once_inv s \<longleftrightarrow>
     \<not> done_ready s \<and> wpc s \<noteq> W_Cancelled \<and> reboots s \<le> 1 \<and>
     (exited s = None \<longrightarrow>
        (wpc s \<noteq> W_Finished \<longrightarrow> reboots s = 0) \<and> (\<not> spawned (mpc s) \<longrightarrow> wpc s = W_Idle))"

text \<open>
  A sample run: the clock reads 2024-01-01T10:00:00 UTC, the zone is UTC, every file can
  be read and written, and \<^verbatim>\<open>config.yaml\<close> holds \<^verbatim>\<open>after_days: 0\<close> and \<^verbatim>\<open>at: "10:01"\<close>.
  \<open>doc at\<close> is such a document for another time of day, and \<open>sample_yaml\<close> stands for
  the decoder on the documents of the samples.
\<close>

definition doc :: "string \<Rightarrow> string" where
  "doc at = ''after_days: 0'' @ [CHR 0x0A] @ ''at: '' @ [CHR 0x22] @ at @ [CHR 0x22]"

definition sample_yaml :: "string \<Rightarrow> config \<Rightarrow> config option" where
  "sample_yaml data c =
     (if data = defaultConfig then Some (c\<lparr>AfterDays := 300, At := ''23:50''\<rparr>)
      else if data = doc ''10:01'' then Some (c\<lparr>AfterDays := 0, At := ''10:01''\<rparr>)
      else if data = doc ''09:00'' then Some (c\<lparr>AfterDays := 0, At := ''09:00''\<rparr>)
      else if data = doc ''25:00'' then Some (c\<lparr>AfterDays := 0, At := ''25:00''\<rparr>)
      else None)"

definition sample_env :: env where
  "sample_env = \<lparr>location = UTC, shutdown_ok = True, yaml = sample_yaml\<rparr>"

definition sample_fs_at :: "string \<Rightarrow> filesys" where
  "sample_fs_at at =
     \<lparr>files = [configPath \<mapsto> doc at], writable = (\<lambda>p. True), readable = (\<lambda>p. True)\<rparr>"

definition sample_fs :: filesys where
  "sample_fs = sample_fs_at ''10:01''"

definition sample_now :: int where
  "sample_now = 1704103200000000000"

text \<open>The service starts, reports \<open>Running\<close>, and the timer goroutine arms its timer.\<close>

definition startup :: "action list" where
  "startup = [Main, Main, Main, Main, Main, Worker, Worker, Worker]"

text \<open>After the start, one minute passes, the timer fires and \<^verbatim>\<open>reboot()\<close> runs.\<close>

definition fire_run :: "action list" where
  "fire_run = startup @ [Tick 60000000000, Worker, Worker]"

definition far_config :: config where
  "far_config = \<lparr>AfterDays = 200000, At = ''23:50''\<rparr>"

definition default_config :: config where
  "default_config = \<lparr>AfterDays = 300, At = ''23:50''\<rparr>"


definition running_status :: Status where
  "running_status = \<lparr>State = Running, Accepts = cmdsAccepted\<rparr>"

definition start_status :: Status where
  "start_status = \<lparr>State = StartPending, Accepts = 0\<rparr>"

definition stop_status :: Status where
  "stop_status = \<lparr>State = StopPending, Accepts = 0\<rparr>"

fun status_ok :: "main_pc \<Rightarrow> Status list \<Rightarrow> bool" where
  "status_ok M_OpenLog r \<longleftrightarrow> r = []"
| "status_ok M_SendStartPending r \<longleftrightarrow> r = []"
| "status_ok M_LoadConfig r \<longleftrightarrow> r = [start_status]"
| "status_ok M_Spawn r \<longleftrightarrow> r = [start_status]"
| "status_ok M_SendRunning r \<longleftrightarrow> r = [start_status]"
| "status_ok M_Select r \<longleftrightarrow> (\<exists>k. r = start_status # replicate (Suc k) running_status)"
| "status_ok (M_Reply st) r \<longleftrightarrow>
     st = running_status \<and> (\<exists>k. r = start_status # replicate (Suc k) running_status)"
| "status_ok M_SendStopPending r \<longleftrightarrow>
     (\<exists>k. r = start_status # replicate (Suc k) running_status)"
| "status_ok M_LogStopping r \<longleftrightarrow>
     (\<exists>k. r = start_status # replicate (Suc k) running_status @ [stop_status])"
| "status_ok (M_Returned ssec errno) r \<longleftrightarrow>
     (if errno = 0
      then (\<exists>k. r = start_status # replicate (Suc k) running_status @ [stop_status])
      else r = [])"

definition status_inv :: "state \<Rightarrow> bool" where
  "status_inv s = status_ok (mpc s) (reported s)"

definition parse_inv :: "state \<Rightarrow> bool" where
  "parse_inv s \<longleftrightarrow>
     (\<not> spawned (mpc s) \<longrightarrow> wpc s = W_Idle \<and> reboots s = 0) \<and>
     (spawned (mpc s) \<and> parseClock (At (cfg s)) = None \<longrightarrow> wpc s = W_Calc \<and> reboots s = 0)"

fun interrogations :: "nat \<Rightarrow> action list" where
  "interrogations 0 = []"
| "interrogations (Suc n) = Deliver Interrogate # Main # interrogations n"

definition failing_env :: env where
  "failing_env = sample_env\<lparr>shutdown_ok := False\<rparr>"


definition stop_before_deadline :: "action list" where
  "stop_before_deadline = startup @ [Tick 59999999999, Deliver Stop, Main]"

definition fire_after_stop :: "action list" where
  "fire_after_stop = [Tick 1, Worker, Worker]"

text \<open>
  The wall-clock reading that line 68 asks \<^verbatim>\<open>time.Date\<close> for, as seconds counted from
  1970-01-01T00:00:00 on the wall clock, computed without overflow: the day that lies
  \<open>AfterDays\<close> days from today's, at the configured hour and minute.
\<close>

definition wallSeconds :: "config \<Rightarrow> Location \<Rightarrow> int \<Rightarrow> int \<Rightarrow> int \<Rightarrow> int" where
  "wallSeconds c loc now hour minute =
     (localDays loc now + AfterDays c) * secondsPerDay + hour * 3600 + minute * 60"

text \<open>
  Two locations with the transitions of the year 2024: New York (UTC-5, UTC-4 from
  2024-03-10T07:00Z to 2024-11-03T06:00Z) and Berlin (UTC+1, UTC+2 from 2024-03-31T01:00Z
  to 2024-10-27T01:00Z).
\<close>

definition new_york :: Location where
  "new_york = \<lparr>zone0 = - 18000, tx = [(1710054000, - 14400), (1730613600, - 18000)]\<rparr>"

definition berlin :: Location where
  "berlin = \<lparr>zone0 = 3600, tx = [(1711846800, 7200), (1729990800, 3600)]\<rparr>"

text \<open>
  2024-01-01T10:00:00 in New York.
\<close>

definition new_york_now :: int where
  "new_york_now = 1704121200000000000"


text \<open>
  The service in Berlin on 2024-10-27, the day the clocks are set back from 03:00 to
  02:00: at 02:40 before the change (\<open>fallback_now\<close>, 00:40Z) with \<^verbatim>\<open>at: "02:30"\<close>, and at
  10:00 (\<open>berlin_morning\<close>, 09:00Z).
\<close>

definition berlin_env :: env where
  "berlin_env = sample_env\<lparr>location := berlin\<rparr>"

definition fallback_now :: int where
  "fallback_now = 1729989600000000000"

definition fallback_config :: config where
  "fallback_config = \<lparr>AfterDays = 0, At = ''02:30''\<rparr>"

definition berlin_morning :: int where
  "berlin_morning = 1730019600000000000"

section \<open>Properties\<close>

lemmas run_defs =
  step_def main_step_def worker_step_def recv_req_def last_status_def reboot_def
  send_status_def println_def fatalf_def init_def loadConfig_def readConfig_def
  openAppend_def
  logFilePath_def configPath_def serviceLogPath_def exePath_def defaultConfig_def
  zeroConfig_def

lemmas sample_defs =
  sample_env_def sample_fs_def sample_fs_at_def sample_now_def sample_yaml_def doc_def

subsection \<open>Runs\<close>

lemma exec_append:
  "exec e (xs @ ys) s = (case exec e xs s of None \<Rightarrow> None | Some s' \<Rightarrow> exec e ys s')"
  by (induction xs arbitrary: s) (auto split: option.splits)

lemma step_alive: "step e a s = Some s' \<Longrightarrow> exited s = None"
  by (simp add: step_def split: if_splits)

lemma calc_sample:
  "calculateSleepDuration \<lparr>AfterDays = 0, At = ''10:01''\<rparr> UTC 1704103200000000000
     = Inr 60000000000"
  by code_simp

lemma startup_run:
  "map_option
     (\<lambda>s. (clock s, mpc s, wpc s, done_ready s, reported s, reboots s, exited s, cfg s,
           logged s))
     (exec sample_env startup (init sample_now sample_fs)) =
   Some (1704103200000000000, M_Select, W_Select 1704103260000000000, False,
     [\<lparr>State = StartPending, Accepts = 0\<rparr>, \<lparr>State = Running, Accepts = cmdsAccepted\<rparr>],
     0, None, \<lparr>AfterDays = 0, At = ''10:01''\<rparr>,
     [ServiceStarting, RebootAt 1704103260000000000])"
  by (simp add: startup_def run_defs sample_defs calc_sample Let_def)

subsection \<open>The shutdown command runs at most once\<close>

lemma once_inv_init: "once_inv (init t f)"
  by (simp add: once_inv_def init_def spawned_def)

lemma main_step_once_inv:
  assumes "once_inv s" and "exited s = None" and "main_step e s = Some s'"
  shows "once_inv s'"
  using assms
  by (cases "mpc s")
     (auto simp: main_step_def once_inv_def spawned_def send_status_def println_def
        fatalf_def Let_def
        split: if_splits prod.splits sum.splits)

lemma worker_step_once_inv:
  assumes "once_inv s" and "exited s = None" and "worker_step e s = Some s'"
  shows "once_inv s'"
  using assms
  by (cases "wpc s")
     (auto simp: worker_step_def once_inv_def reboot_def println_def fatalf_def Let_def
        split: if_splits sum.splits)

lemma step_once_inv:
  assumes "once_inv s" and "step e a s = Some s'"
  shows "once_inv s'"
proof -
  from assms(2) have alive: "exited s = None"
    by (rule step_alive)
  show ?thesis
  proof (cases a)
    case (Tick n)
    with assms alive show ?thesis by (auto simp: step_def once_inv_def)
  next
    case Main
    with assms alive show ?thesis by (auto simp: step_def intro: main_step_once_inv)
  next
    case Worker
    with assms alive show ?thesis by (auto simp: step_def intro: worker_step_once_inv)
  next
    case (Deliver c)
    with assms alive show ?thesis
      by (cases c) (auto simp: step_def once_inv_def recv_req_def spawned_def split: if_splits)
  next
    case MainDone
    with assms alive show ?thesis by (auto simp: step_def once_inv_def split: if_splits)
  next
    case WorkerDone
    with assms alive show ?thesis
      by (auto simp: step_def once_inv_def split: if_splits worker_pc.splits)
  qed
qed

lemma exec_once_inv: "once_inv s \<Longrightarrow> exec e sched s = Some s' \<Longrightarrow> once_inv s'"
proof (induction sched arbitrary: s)
  case Nil
  then show ?case by simp
next
  case (Cons a sched)
  then show ?case by (auto split: option.splits dest: step_once_inv)
qed

text \<open>No run ever completes a receive from \<^verbatim>\<open>done\<close>: the cases of lines 121 and 140 are
  never taken, and \<^verbatim>\<open>timer.Stop()\<close> is never called.\<close>

lemma done_never_signalled:
  assumes "exec e sched (init t f) = Some s"
  shows "\<not> done_ready s \<and> wpc s \<noteq> W_Cancelled \<and> step e MainDone s = None \<and>
         step e WorkerDone s = None"
proof -
  from once_inv_init assms have "once_inv s" by (rule exec_once_inv)
  then have "\<not> done_ready s" "wpc s \<noteq> W_Cancelled" by (simp_all add: once_inv_def)
  then show ?thesis by (simp add: step_def split: worker_pc.splits)
qed

lemma step_reboots_change:
  assumes "step e a s = Some s'" and "reboots s' \<noteq> reboots s"
  shows "a = Worker \<and> wpc s = W_Reboot \<and> reboots s' = reboots s + 1"
proof -
  from assms(1) have alive: "exited s = None"
    by (rule step_alive)
  show ?thesis
  proof (cases a)
    case (Tick n)
    with assms alive show ?thesis by (auto simp: step_def)
  next
    case Main
    with assms alive show ?thesis
      by (cases "mpc s")
         (auto simp: step_def main_step_def send_status_def println_def fatalf_def Let_def
            split: if_splits prod.splits sum.splits)
  next
    case Worker
    with assms alive show ?thesis
      by (cases "wpc s")
         (auto simp: step_def worker_step_def reboot_def println_def fatalf_def Let_def
            split: if_splits sum.splits)
  next
    case (Deliver c)
    with assms alive show ?thesis
      by (cases c) (auto simp: step_def recv_req_def split: if_splits)
  next
    case MainDone
    with assms alive show ?thesis by (auto simp: step_def split: if_splits)
  next
    case WorkerDone
    with assms alive show ?thesis
      by (auto simp: step_def split: if_splits worker_pc.splits)
  qed
qed

lemma step_enters_reboot:
  assumes "step e a s = Some s'" and "wpc s' = W_Reboot" and "wpc s \<noteq> W_Reboot"
  shows "a = Worker \<and> (\<exists>t. wpc s = W_Select t \<and> t \<le> clock s)"
proof -
  from assms(1) have alive: "exited s = None"
    by (rule step_alive)
  show ?thesis
  proof (cases a)
    case (Tick n)
    with assms alive show ?thesis by (auto simp: step_def)
  next
    case Main
    with assms alive show ?thesis
      by (cases "mpc s")
         (auto simp: step_def main_step_def send_status_def println_def fatalf_def Let_def
            split: if_splits prod.splits sum.splits)
  next
    case Worker
    with assms alive show ?thesis
      by (cases "wpc s")
         (auto simp: step_def worker_step_def reboot_def println_def fatalf_def Let_def
            split: if_splits sum.splits)
  next
    case (Deliver c)
    with assms alive show ?thesis
      by (cases c) (auto simp: step_def recv_req_def split: if_splits)
  next
    case MainDone
    with assms alive show ?thesis by (auto simp: step_def split: if_splits)
  next
    case WorkerDone
    with assms alive show ?thesis
      by (auto simp: step_def split: if_splits worker_pc.splits)
  qed
qed

lemma fire_run_result:
  "\<exists>s. exec sample_env fire_run (init sample_now sample_fs) = Some s \<and> reboots s = 1
     \<and> mpc s = M_Select \<and> wpc s = W_Finished \<and> exited s = None \<and> \<not> done_ready s
     \<and> map State (reported s) = [StartPending, Running]"
proof -
  from startup_run obtain s0 where
    s0: "exec sample_env startup (init sample_now sample_fs) = Some s0"
    and f: "clock s0 = 1704103200000000000" "mpc s0 = M_Select"
      "wpc s0 = W_Select 1704103260000000000" "reboots s0 = 0" "exited s0 = None"
      "\<not> done_ready s0"
      "reported s0 = [\<lparr>State = StartPending, Accepts = 0\<rparr>,
         \<lparr>State = Running, Accepts = cmdsAccepted\<rparr>]"
    by auto
  show ?thesis
    unfolding fire_run_def exec_append s0
    using f by (simp add: run_defs sample_env_def Let_def)
qed

text \<open>
  C2. In every run of the service, whatever the order of signals, clock ticks and
  goroutine steps, the shutdown command has run at most once. The only step that runs it
  is the timer goroutine's call of \<^verbatim>\<open>reboot()\<close> on line 120, and the only step that leads
  there is the timer goroutine's \<^verbatim>\<open>select\<close> taking the case of a timer that is due; in
  particular no delivery of a signal runs the command.
\<close>

theorem reboot_at_most_once:
  "(exec e sched (init t f) = Some s \<longrightarrow> reboots s \<le> 1) \<and>
   (step e a u = Some u' \<and> reboots u' \<noteq> reboots u \<longrightarrow>
      a = Worker \<and> wpc u = W_Reboot \<and> reboots u' = reboots u + 1) \<and>
   (step e a u = Some u' \<and> wpc u' = W_Reboot \<and> wpc u \<noteq> W_Reboot \<longrightarrow>
      a = Worker \<and> (\<exists>d. wpc u = W_Select d \<and> d \<le> clock u))"
proof -
  have once: "exec e sched (init t f) = Some s \<longrightarrow> reboots s \<le> 1"
  proof
    assume "exec e sched (init t f) = Some s"
    with once_inv_init have "once_inv s" by (rule exec_once_inv)
    then show "reboots s \<le> 1" by (simp add: once_inv_def)
  qed
  have by_worker: "step e a u = Some u' \<and> reboots u' \<noteq> reboots u \<longrightarrow>
      a = Worker \<and> wpc u = W_Reboot \<and> reboots u' = reboots u + 1"
    using step_reboots_change by blast
  have by_timer: "step e a u = Some u' \<and> wpc u' = W_Reboot \<and> wpc u \<noteq> W_Reboot \<longrightarrow>
      a = Worker \<and> (\<exists>d. wpc u = W_Select d \<and> d \<le> clock u)"
    using step_enters_reboot by blast
  from once by_worker by_timer show ?thesis by (intro conjI)
qed

theorem reboot_at_most_once_witness:
  "\<exists>s. exec sample_env fire_run (init sample_now sample_fs) = Some s \<and> reboots s = 1
     \<and> reboots s \<le> 1"
proof -
  from fire_run_result obtain s where
    s: "exec sample_env fire_run (init sample_now sample_fs) = Some s" "reboots s = 1"
    by blast
  from reboot_at_most_once [of sample_env fire_run sample_now sample_fs s] s(1)
  have "reboots s \<le> 1" by blast
  with s show ?thesis by blast
qed

subsection \<open>Calendar arithmetic\<close>

text \<open>The decomposition of a day number into 400-year, 100-year, 4-year and 1-year
  cycles is exact, so the date of a day number leads back to that day number.\<close>

lemma daysBeforeYear_cycles:
  assumes "0 \<le> b" "b \<le> 3" "0 \<le> c" "c \<le> 24" "0 \<le> d" "d \<le> 3"
  shows "daysBeforeYear (400 * a + 100 * b + 4 * c + d + 1)
           = 146097 * a + 36524 * b + 1461 * c + 365 * d"
proof -
  let ?y = "400 * a + 100 * b + 4 * c + d"
  have q4: "?y div 4 = 100 * a + 25 * b + c"
    using assms by (intro int_div_pos_eq [where r = d]) auto
  have q100: "?y div 100 = 4 * a + b"
    using assms by (intro int_div_pos_eq [where r = "4 * c + d"]) auto
  have q400: "?y div 400 = a"
    using assms by (intro int_div_pos_eq [where r = "100 * b + 4 * c + d"]) auto
  show ?thesis
    unfolding daysBeforeYear_def using q4 q100 q400 by simp
qed

lemma yearOfDays_sound:
  assumes "yearOfDays z = (y, yd)"
  shows "daysBeforeYear y + yd = z + unixEpochDays"
proof -
  define n where "n = z + unixEpochDays"
  define a where "a = n div 146097"
  define r where "r = n mod 146097"
  define b where "b = min 3 (r div 36524)"
  define r1 where "r1 = r - b * 36524"
  define c where "c = r1 div 1461"
  define r2 where "r2 = r1 mod 1461"
  define d where "d = min 3 (r2 div 365)"
  have "yearOfDays z = (400 * a + 100 * b + 4 * c + d + 1, r2 - d * 365)"
    unfolding yearOfDays_def Let_def d_def r2_def c_def r1_def b_def r_def a_def n_def
    by (rule refl)
  with assms have y: "y = 400 * a + 100 * b + 4 * c + d + 1" and yd: "yd = r2 - d * 365"
    by simp_all
  have r: "0 \<le> r" "r < 146097" by (simp_all add: r_def)
  have b: "0 \<le> b" "b \<le> 3" using r by (simp_all add: b_def)
  have r1: "0 \<le> r1" "r1 \<le> 36524"
    using r unfolding r1_def b_def by (auto simp: min_def)
  have c: "0 \<le> c" "c \<le> 24" using r1 unfolding c_def by auto
  have r2: "0 \<le> r2" "r2 < 1461" by (simp_all add: r2_def)
  have d: "0 \<le> d" "d \<le> 3" using r2 by (simp_all add: d_def)
  have n: "n = 146097 * a + r" by (simp add: a_def r_def)
  have r1': "r1 = 1461 * c + r2" by (simp add: c_def r2_def)
  have "daysBeforeYear y = 146097 * a + 36524 * b + 1461 * c + 365 * d"
    unfolding y using b c d by (rule daysBeforeYear_cycles)
  then show ?thesis
    using n r1' by (simp add: yd r1_def n_def)
qed

lemma daysSinceEpoch_civilOfDays:
  assumes "civilOfDays z = (y, m, d)"
  shows "daysSinceEpoch y m d = z"
proof -
  obtain y' yd where yy: "yearOfDays z = (y', yd)" by (cases "yearOfDays z")
  with assms have "y = y'" "m = monthOfYday y' yd" "d = yd - daysBeforeIn y' m + 1"
    by (auto simp: civilOfDays_def Let_def)
  moreover from yy have "daysBeforeYear y' + yd = z + unixEpochDays"
    by (rule yearOfDays_sound)
  ultimately show ?thesis by (simp add: daysSinceEpoch_def)
qed

lemma monthOfYday_range: "1 \<le> monthOfYday y yd \<and> monthOfYday y yd \<le> 12"
  by (simp add: monthOfYday_def)


lemma getnum_range:
  "getnum s fixed = Some (n, rest) \<Longrightarrow> 0 \<le> n \<and> n < 100"
  by (induction s fixed rule: getnum.induct)
     (auto simp: isDigit_def digitVal_def split: if_splits)

lemma parseClock_range:
  assumes "parseClock s = Some (h, mi)"
  shows "0 \<le> h \<and> h < 24 \<and> 0 \<le> mi \<and> mi < 60"
  using assms
  by (auto simp: parseClock_def split: option.splits prod.splits if_splits list.splits
        dest: getnum_range)

subsection \<open>The states reported, and Interrogate\<close>

lemma status_inv_init: "status_inv (init t f)"
  by (simp add: status_inv_def init_def)

lemma ex_replicate_Cons: "\<exists>j. x # replicate k x = replicate j x"
  by (rule exI [of _ "Suc k"]) simp

lemma main_step_status_inv:
  assumes "status_inv s" and "main_step e s = Some s'"
  shows "status_inv s'"
  using assms
  by (cases "mpc s")
     (auto simp: main_step_def status_inv_def send_status_def println_def fatalf_def Let_def
        running_status_def start_status_def stop_status_def
        replicate_append_same ex_replicate_Cons
        split: if_splits prod.splits sum.splits)

lemma status_inv_frame:
  "mpc s' = mpc s \<Longrightarrow> reported s' = reported s \<Longrightarrow> status_inv s \<Longrightarrow> status_inv s'"
  by (simp add: status_inv_def)

lemma worker_step_frame:
  assumes "worker_step e s = Some s'"
  shows "mpc s' = mpc s \<and> reported s' = reported s \<and> cfg s' = cfg s \<and> clock s' = clock s
    \<and> done_ready s' = done_ready s"
  using assms
  by (cases "wpc s")
     (auto simp: worker_step_def reboot_def println_def fatalf_def Let_def
        split: if_splits sum.splits)

lemma step_status_inv:
  assumes "status_inv s" and "step e a s = Some s'"
  shows "status_inv s'"
proof (cases a)
  case (Tick n)
  with assms(2) have "mpc s' = mpc s" "reported s' = reported s"
    by (auto simp: step_def split: if_splits)
  then show ?thesis using assms(1) by (rule status_inv_frame)
next
  case Main
  with assms show ?thesis by (auto simp: step_def split: if_splits intro: main_step_status_inv)
next
  case Worker
  with assms(2) have "worker_step e s = Some s'"
    by (auto simp: step_def split: if_splits)
  then have "mpc s' = mpc s" "reported s' = reported s"
    using worker_step_frame by blast+
  then show ?thesis using assms(1) by (rule status_inv_frame)
next
  case (Deliver c)
  with assms(2) have sel: "mpc s = M_Select"
    and s': "s' = recv_req \<lparr>Cmd = c, CurrentStatus = last_status s\<rparr> s"
    by (auto simp: step_def split: if_splits)
  from assms(1) sel have "last_status s = running_status"
    by (auto simp: status_inv_def last_status_def)
  with assms(1) sel s' show ?thesis
    by (cases c) (auto simp: status_inv_def recv_req_def)
next
  case MainDone
  with assms show ?thesis by (auto simp: step_def status_inv_def split: if_splits)
next
  case WorkerDone
  with assms(2) have "mpc s' = mpc s" "reported s' = reported s"
    by (auto simp: step_def split: if_splits worker_pc.splits)
  then show ?thesis using assms(1) by (rule status_inv_frame)
qed

lemma exec_status_inv: "status_inv s \<Longrightarrow> exec e sched s = Some s' \<Longrightarrow> status_inv s'"
proof (induction sched arbitrary: s)
  case Nil
  then show ?case by simp
next
  case (Cons a sched)
  then show ?case by (auto split: option.splits dest: step_status_inv)
qed

lemma select_last_status:
  assumes "status_inv s" and "mpc s = M_Select"
  shows "last_status s = running_status"
  using assms by (auto simp: status_inv_def last_status_def)

text \<open>In every run the states the service manager sees come in the order \<open>StartPending\<close>,
  \<open>Running\<close>, \<open>StopPending\<close>, \<open>Stopped\<close>; only \<open>Running\<close> is reported more than once, by the
  replies to \<open>Interrogate\<close>.\<close>

lemma lifecycle_shape:
  assumes "status_ok pc r"
  shows "\<exists>a b c d. a \<le> 1 \<and> c \<le> 1 \<and> d \<le> 1 \<and>
           map State r @ (case pc of M_Returned ssec errno \<Rightarrow> [Stopped] | _ \<Rightarrow> []) =
           replicate a StartPending @ replicate b Running @ replicate c StopPending @
           replicate d Stopped"
proof -
  have shape: "\<exists>a b c d. a \<le> 1 \<and> c \<le> 1 \<and> d \<le> 1 \<and>
      xs = replicate a StartPending @ replicate b Running @ replicate c StopPending @
           replicate d Stopped"
    if "xs = replicate a StartPending @ replicate b Running @ replicate c StopPending @
           replicate d Stopped" "a \<le> 1" "c \<le> 1" "d \<le> 1" for xs and a b c d :: nat
    using that by blast
  show ?thesis
  proof (cases pc)
    case M_OpenLog
    with assms show ?thesis by (intro shape [of _ 0 0 0 0]) simp_all
  next
    case M_SendStartPending
    with assms show ?thesis by (intro shape [of _ 0 0 0 0]) simp_all
  next
    case M_LoadConfig
    with assms show ?thesis by (intro shape [of _ 1 0 0 0]) (simp_all add: start_status_def)
  next
    case M_Spawn
    with assms show ?thesis by (intro shape [of _ 1 0 0 0]) (simp_all add: start_status_def)
  next
    case M_SendRunning
    with assms show ?thesis by (intro shape [of _ 1 0 0 0]) (simp_all add: start_status_def)
  next
    case M_Select
    with assms obtain k where "r = start_status # replicate (Suc k) running_status" by auto
    with M_Select show ?thesis
      by (intro shape [of _ 1 "Suc k" 0 0]) (simp_all add: start_status_def running_status_def)
  next
    case (M_Reply st)
    with assms obtain k where "r = start_status # replicate (Suc k) running_status" by auto
    with M_Reply show ?thesis
      by (intro shape [of _ 1 "Suc k" 0 0]) (simp_all add: start_status_def running_status_def)
  next
    case M_SendStopPending
    with assms obtain k where "r = start_status # replicate (Suc k) running_status" by auto
    with M_SendStopPending show ?thesis
      by (intro shape [of _ 1 "Suc k" 0 0]) (simp_all add: start_status_def running_status_def)
  next
    case M_LogStopping
    with assms obtain k where
      "r = start_status # replicate (Suc k) running_status @ [stop_status]" by auto
    with M_LogStopping show ?thesis
      by (intro shape [of _ 1 "Suc k" 1 0])
         (simp_all add: start_status_def running_status_def stop_status_def)
  next
    case (M_Returned ssec errno)
    show ?thesis
    proof (cases "errno = 0")
      case True
      with assms M_Returned obtain k where
        "r = start_status # replicate (Suc k) running_status @ [stop_status]" by auto
      with M_Returned show ?thesis
        by (intro shape [of _ 1 "Suc k" 1 1])
           (simp_all add: start_status_def running_status_def stop_status_def)
    next
      case False
      with assms M_Returned have "r = []" by simp
      with M_Returned show ?thesis by (intro shape [of _ 0 0 0 1]) simp_all
    qed
  qed
qed

lemma lifecycle_in_order:
  assumes "exec e sched (init t f) = Some s"
  shows "\<exists>a b c d. a \<le> 1 \<and> c \<le> 1 \<and> d \<le> 1 \<and>
           lifecycle s =
           replicate a StartPending @ replicate b Running @ replicate c StopPending @
           replicate d Stopped"
proof -
  from status_inv_init assms have "status_ok (mpc s) (reported s)"
    unfolding status_inv_def [symmetric] by (rule exec_status_inv)
  then show ?thesis unfolding lifecycle_def by (rule lifecycle_shape)
qed

lemma interrogate_once:
  assumes "exited s = None" and "mpc s = M_Select" and "last_status s = st"
  shows "exec e [Deliver Interrogate, Main] s = Some (s\<lparr>reported := reported s @ [st]\<rparr>)"
proof -
  have "s\<lparr>reported := reported s @ [st], mpc := M_Select\<rparr> = s\<lparr>reported := reported s @ [st]\<rparr>"
    using assms(2) by (cases s) simp
  with assms show ?thesis
    by (simp add: step_def recv_req_def main_step_def send_status_def)
qed

lemma interrogations_run:
  assumes "exited s = None" and "mpc s = M_Select" and "last_status s = st"
    and "reported s \<noteq> []"
  shows "exec e (interrogations n) s = Some (s\<lparr>reported := reported s @ replicate n st\<rparr>)"
  using assms
proof (induction n arbitrary: s)
  case 0
  then show ?case by simp
next
  case (Suc n)
  let ?s1 = "s\<lparr>reported := reported s @ [st]\<rparr>"
  have one: "exec e [Deliver Interrogate, Main] s = Some ?s1"
    using Suc.prems(1-3) by (rule interrogate_once)
  have "exec e (interrogations n) ?s1
          = Some (?s1\<lparr>reported := reported ?s1 @ replicate n st\<rparr>)"
    using Suc.prems by (intro Suc.IH) (simp_all add: last_status_def)
  moreover have "interrogations (Suc n) = [Deliver Interrogate, Main] @ interrogations n"
    by simp
  then have "exec e (interrogations (Suc n)) s = exec e (interrogations n) ?s1"
    by (simp only: exec_append one option.case)
  ultimately show ?case by (simp add: replicate_append_same)
qed

text \<open>
  C7. In every state the service reaches in which \<^verbatim>\<open>Execute\<close> waits in its \<^verbatim>\<open>select\<close>, any
  number \<open>n\<close> of \<open>Interrogate\<close> requests, each answered on \<^verbatim>\<open>status\<close>, leaves the whole
  state as it was (the position of both goroutines, the armed timer, the clock, the
  count of reboots) except that \<open>n\<close> replies were sent, each of them the status
  \<open>Running\<close> with stop and shutdown accepted, which is the current one.
\<close>

theorem interrogate_transparent:
  assumes "exec e sched (init t f) = Some s" and "mpc s = M_Select" and "exited s = None"
  shows "exec e (interrogations n) s =
           Some (s\<lparr>reported := reported s @
                   replicate n \<lparr>State = Running, Accepts = cmdsAccepted\<rparr>\<rparr>)"
proof -
  from status_inv_init assms(1) have inv: "status_inv s" by (rule exec_status_inv)
  from inv assms(2) have "last_status s = running_status" by (rule select_last_status)
  moreover from inv assms(2) have "reported s \<noteq> []" by (auto simp: status_inv_def)
  ultimately show ?thesis
    using assms(2,3) interrogations_run [of s running_status e n]
    by (simp add: running_status_def)
qed

theorem interrogate_transparent_witness:
  "\<exists>s. exec sample_env startup (init sample_now sample_fs) = Some s \<and> mpc s = M_Select \<and>
       exited s = None \<and>
       map_option (\<lambda>s'. (mpc s', wpc s', reboots s', map State (reported s')))
         (exec sample_env (interrogations 3) s)
        = Some (M_Select, W_Select 1704103260000000000, 0,
            [StartPending, Running, Running, Running, Running])"
proof -
  from startup_run obtain s where
    s: "exec sample_env startup (init sample_now sample_fs) = Some s"
    and f: "mpc s = M_Select" "exited s = None" "wpc s = W_Select 1704103260000000000"
      "reboots s = 0"
      "reported s = [\<lparr>State = StartPending, Accepts = 0\<rparr>,
         \<lparr>State = Running, Accepts = cmdsAccepted\<rparr>]"
    by auto
  from interrogate_transparent [OF s f(1,2), of 3] f s show ?thesis
    by (auto simp: numeral_3_eq_3)
qed

subsection \<open>A failing shutdown command\<close>

lemma exited_no_step: "exited s \<noteq> None \<Longrightarrow> step e a s = None"
  by (simp add: step_def)

lemma exited_no_run: "exited s \<noteq> None \<Longrightarrow> exec e sched s = (if sched = [] then Some s else None)"
  by (cases sched) (simp_all add: exited_no_step)

text \<open>
  C6. When the timer goroutine is about to call \<^verbatim>\<open>reboot()\<close> and the shutdown command
  returns an error, that step logs the failure through \<^verbatim>\<open>log.Fatalf\<close> and ends the process
  with exit code 1. The command has run once in that step, and nothing runs afterwards:
  no action has a step in the state reached, so the command is not run again.
\<close>

theorem reboot_failure_is_fatal:
  assumes "exited s = None" and "wpc s = W_Reboot" and "\<not> shutdown_ok e"
  shows "\<exists>s'. step e Worker s = Some s' \<and> exited s' = Some 1 \<and>
           logged s' = logged s @ [RebootingSystem, Fatalf FailedShutdownCommand] \<and>
           reboots s' = reboots s + 1 \<and>
           (\<forall>a. step e a s' = None) \<and>
           (\<forall>sched. exec e sched s' = (if sched = [] then Some s' else None))"
proof -
  let ?s' = "(reboot e s)\<lparr>wpc := W_Finished\<rparr>"
  have st: "step e Worker s = Some ?s'"
    using assms by (simp add: step_def worker_step_def)
  have ex: "exited ?s' = Some 1"
    using assms by (simp add: reboot_def println_def fatalf_def Let_def)
  have lg: "logged ?s' = logged s @ [RebootingSystem, Fatalf FailedShutdownCommand]"
    using assms by (simp add: reboot_def println_def fatalf_def Let_def)
  have rb: "reboots ?s' = reboots s + 1"
    using assms by (simp add: reboot_def println_def fatalf_def Let_def)
  from ex have "\<forall>a. step e a ?s' = None" by (simp add: exited_no_step)
  moreover from ex have "\<forall>sched. exec e sched ?s' = (if sched = [] then Some ?s' else None)"
    by (simp add: exited_no_run)
  ultimately show ?thesis using st ex lg rb by blast
qed

lemma failing_startup:
  "map_option (\<lambda>s. (wpc s, exited s, reboots s, logged s))
     (exec failing_env (startup @ [Tick 60000000000, Worker]) (init sample_now sample_fs)) =
   Some (W_Reboot, None, 0, [ServiceStarting, RebootAt 1704103260000000000])"
  by (simp add: startup_def run_defs sample_defs failing_env_def calc_sample Let_def)

theorem reboot_failure_is_fatal_witness:
  "\<exists>s s'. exec failing_env (startup @ [Tick 60000000000, Worker]) (init sample_now sample_fs)
           = Some s \<and>
         step failing_env Worker s = Some s' \<and> exited s' = Some 1 \<and> reboots s' = 1 \<and>
         logged s' = [ServiceStarting, RebootAt 1704103260000000000, RebootingSystem,
           Fatalf FailedShutdownCommand] \<and>
         step failing_env Worker s' = None"
proof -
  from failing_startup obtain s where
    s: "exec failing_env (startup @ [Tick 60000000000, Worker]) (init sample_now sample_fs)
          = Some s"
    and f: "wpc s = W_Reboot" "exited s = None" "reboots s = 0"
      "logged s = [ServiceStarting, RebootAt 1704103260000000000]"
    by auto
  have "\<not> shutdown_ok failing_env" by (simp add: failing_env_def sample_env_def)
  from reboot_failure_is_fatal [OF f(2) f(1) this] s f show ?thesis
    by auto
qed

subsection \<open>A time of day that does not parse\<close>

lemma parse_inv_init: "parse_inv (init t f)"
  by (simp add: parse_inv_def init_def spawned_def)

lemma main_step_parse_inv:
  assumes "parse_inv s" and "main_step e s = Some s'"
  shows "parse_inv s'"
  using assms
  by (cases "mpc s")
     (auto simp: main_step_def parse_inv_def spawned_def send_status_def println_def
        fatalf_def Let_def
        split: if_splits prod.splits sum.splits)

lemma worker_step_parse_inv:
  assumes "parse_inv s" and "worker_step e s = Some s'"
  shows "parse_inv s'"
  using assms
  by (cases "wpc s")
     (auto simp: worker_step_def parse_inv_def reboot_def println_def fatalf_def Let_def
        calculateSleepDuration_def
        split: if_splits sum.splits option.splits)

lemma step_parse_inv:
  assumes "parse_inv s" and "step e a s = Some s'"
  shows "parse_inv s'"
proof (cases a)
  case (Tick n)
  with assms show ?thesis by (auto simp: step_def parse_inv_def split: if_splits)
next
  case Main
  with assms show ?thesis by (auto simp: step_def split: if_splits intro: main_step_parse_inv)
next
  case Worker
  with assms show ?thesis
    by (auto simp: step_def split: if_splits intro: worker_step_parse_inv)
next
  case (Deliver c)
  with assms show ?thesis
    by (cases c) (auto simp: step_def parse_inv_def recv_req_def spawned_def split: if_splits)
next
  case MainDone
  with assms show ?thesis
    by (auto simp: step_def parse_inv_def spawned_def split: if_splits)
next
  case WorkerDone
  with assms show ?thesis
    by (auto simp: step_def parse_inv_def split: if_splits worker_pc.splits)
qed

lemma exec_parse_inv: "parse_inv s \<Longrightarrow> exec e sched s = Some s' \<Longrightarrow> parse_inv s'"
proof (induction sched arbitrary: s)
  case Nil
  then show ?case by simp
next
  case (Cons a sched)
  then show ?case by (auto split: option.splits dest: step_parse_inv)
qed

text \<open>
  C5. In every run, once the timer goroutine has been started with a configuration whose
  time of day does not parse, that goroutine is still at its first statement, no timer is
  armed and the shutdown command has not run. If the process is still alive, the
  goroutine's step logs the failure to parse the time and ends the process with exit code
  1, after which no action has a step. So no state in which the reboot could fire is ever
  reached. (The duration is computed in the goroutine, so \<open>Running\<close> may have been reported
  before the process ends.)
\<close>

theorem bad_time_is_fatal:
  assumes "exec e sched (init t f) = Some s" and "spawned (mpc s)"
    and "parseClock (At (cfg s)) = None"
  shows "wpc s = W_Calc \<and> reboots s = 0 \<and>
         (exited s = None \<longrightarrow>
            (\<exists>s'. step e Worker s = Some s' \<and> exited s' = Some 1 \<and>
                  logged s' = logged s @ [Fatalf FailedParseTime] \<and>
                  wpc s' = W_Calc \<and> reboots s' = 0 \<and> (\<forall>a. step e a s' = None)))"
proof -
  from parse_inv_init assms(1) have "parse_inv s" by (rule exec_parse_inv)
  with assms(2,3) have w: "wpc s = W_Calc" "reboots s = 0"
    by (simp_all add: parse_inv_def)
  have "calculateSleepDuration (cfg s) (location e) (clock s) = Inl FailedParseTime"
    using assms(3) by (simp add: calculateSleepDuration_def)
  then have "exited s = None \<Longrightarrow> step e Worker s = Some (fatalf FailedParseTime s)"
    using w by (simp add: step_def worker_step_def)
  moreover have "exited (fatalf FailedParseTime s) = Some 1"
    "logged (fatalf FailedParseTime s) = logged s @ [Fatalf FailedParseTime]"
    "wpc (fatalf FailedParseTime s) = wpc s" "reboots (fatalf FailedParseTime s) = reboots s"
    by (simp_all add: fatalf_def)
  moreover have "\<forall>a. step e a (fatalf FailedParseTime s) = None"
    by (simp add: exited_no_step fatalf_def)
  ultimately show ?thesis using w by auto
qed

lemma bad_parse: "parseClock ''25:00'' = None"
  by code_simp

lemma bad_startup:
  "map_option (\<lambda>s. (mpc s, wpc s, exited s, cfg s, map State (reported s), logged s))
     (exec sample_env [Main, Main, Main, Main, Main] (init sample_now (sample_fs_at ''25:00''))) =
   Some (M_Select, W_Calc, None, \<lparr>AfterDays = 0, At = ''25:00''\<rparr>, [StartPending, Running],
     [ServiceStarting])"
  by (simp add: run_defs sample_defs Let_def)

theorem bad_time_is_fatal_witness:
  "\<exists>s s'. exec sample_env [Main, Main, Main, Main, Main]
            (init sample_now (sample_fs_at ''25:00'')) = Some s \<and>
     spawned (mpc s) \<and> parseClock (At (cfg s)) = None \<and> exited s = None \<and>
     wpc s = W_Calc \<and> reboots s = 0 \<and>
     step sample_env Worker s = Some s' \<and> exited s' = Some 1 \<and>
     logged s' = [ServiceStarting, Fatalf FailedParseTime] \<and> reboots s' = 0"
proof -
  from bad_startup obtain s where
    s: "exec sample_env [Main, Main, Main, Main, Main]
          (init sample_now (sample_fs_at ''25:00'')) = Some s"
    and f: "mpc s = M_Select" "exited s = None" "cfg s = \<lparr>AfterDays = 0, At = ''25:00''\<rparr>"
      "logged s = [ServiceStarting]"
    by auto
  have sp: "spawned (mpc s)" by (simp add: f spawned_def)
  have bad: "parseClock (At (cfg s)) = None" by (simp add: f bad_parse)
  from bad_time_is_fatal [OF s sp bad] s sp bad f show ?thesis
    by auto
qed

subsection \<open>Stop while the timer is armed\<close>

lemma stop_run:
  "map_option
     (\<lambda>s. (clock s, mpc s, wpc s, map State (reported s), reboots s, exited s, logged s))
     (exec sample_env stop_before_deadline (init sample_now sample_fs)) =
   Some (1704103259999999999, M_LogStopping, W_Select 1704103260000000000,
     [StartPending, Running, StopPending], 0, None,
     [ServiceStarting, RebootAt 1704103260000000000])"
proof -
  from startup_run obtain s0 where
    s0: "exec sample_env startup (init sample_now sample_fs) = Some s0"
    and f: "clock s0 = 1704103200000000000" "mpc s0 = M_Select"
      "wpc s0 = W_Select 1704103260000000000" "reboots s0 = 0" "exited s0 = None"
      "reported s0 = [\<lparr>State = StartPending, Accepts = 0\<rparr>,
         \<lparr>State = Running, Accepts = cmdsAccepted\<rparr>]"
      "logged s0 = [ServiceStarting, RebootAt 1704103260000000000]"
    by auto
  show ?thesis
    unfolding stop_before_deadline_def exec_append s0
    using f by (simp add: run_defs Let_def)
qed

text \<open>
  C1 fails on the code. In the sample run the timer is due at 10:01:00. One nanosecond
  before, \<open>Stop\<close> is received by the \<^verbatim>\<open>select\<close> of line 132 and \<open>StopPending\<close> is reported;
  nothing is ever sent on \<^verbatim>\<open>done\<close>, so the timer goroutine keeps waiting. The clock then
  reaches the due instant while \<^verbatim>\<open>Execute\<close> has not yet returned, the timer's case is taken
  and the shutdown command runs.
\<close>

theorem reboot_after_accepted_stop:
  "\<exists>s1 s2. exec sample_env stop_before_deadline (init sample_now sample_fs) = Some s1 \<and>
     mpc s1 = M_LogStopping \<and> map State (reported s1) = [StartPending, Running, StopPending] \<and>
     wpc s1 = W_Select 1704103260000000000 \<and> clock s1 = 1704103259999999999 \<and>
     reboots s1 = 0 \<and> exited s1 = None \<and>
     exec sample_env fire_after_stop s1 = Some s2 \<and> reboots s2 = 1 \<and>
     logged s2 = [ServiceStarting, RebootAt 1704103260000000000, RebootingSystem,
       RebootInitiated]"
proof -
  from stop_run obtain s1 where
    s1: "exec sample_env stop_before_deadline (init sample_now sample_fs) = Some s1"
    and f: "clock s1 = 1704103259999999999" "mpc s1 = M_LogStopping"
      "wpc s1 = W_Select 1704103260000000000"
      "map State (reported s1) = [StartPending, Running, StopPending]"
      "reboots s1 = 0" "exited s1 = None"
      "logged s1 = [ServiceStarting, RebootAt 1704103260000000000]"
    by auto
  have "\<exists>s2. exec sample_env fire_after_stop s1 = Some s2 \<and> reboots s2 = 1 \<and>
     logged s2 = [ServiceStarting, RebootAt 1704103260000000000, RebootingSystem,
       RebootInitiated]"
    using f by (simp add: fire_after_stop_def run_defs sample_env_def Let_def)
  then obtain s2 where "exec sample_env fire_after_stop s1 = Some s2" "reboots s2 = 1"
    "logged s2 = [ServiceStarting, RebootAt 1704103260000000000, RebootingSystem,
       RebootInitiated]"
    by (elim exE conjE)
  with s1 f show ?thesis
    by (intro exI [of _ s1] exI [of _ s2]) simp
qed

subsection \<open>After the timer has fired\<close>

lemma ticks_keep_waiting:
  assumes "exited s = None" and "mpc s = M_Select" and "wpc s = W_Finished"
    and "\<not> done_ready s"
  shows "\<exists>s'. exec e (map Tick ns) s = Some s' \<and> exited s' = None \<and> mpc s' = M_Select \<and>
           wpc s' = W_Finished \<and> \<not> done_ready s' \<and> reported s' = reported s \<and>
           reboots s' = reboots s"
  using assms
proof (induction ns arbitrary: s)
  case Nil
  then show ?case by simp
next
  case (Cons n ns)
  let ?s1 = "s\<lparr>clock := clock s + int n\<rparr>"
  have "step e (Tick n) s = Some ?s1" using Cons.prems by (simp add: step_def)
  moreover have "\<exists>s'. exec e (map Tick ns) ?s1 = Some s' \<and> exited s' = None \<and>
      mpc s' = M_Select \<and> wpc s' = W_Finished \<and> \<not> done_ready s' \<and>
      reported s' = reported ?s1 \<and> reboots s' = reboots ?s1"
    using Cons.prems by (intro Cons.IH) simp_all
  ultimately show ?case by auto
qed

lemma waiting_is_blocked:
  assumes "exited s = None" and "mpc s = M_Select" and "wpc s = W_Finished"
    and "\<not> done_ready s"
  shows "step e Main s = None \<and> step e Worker s = None \<and> step e MainDone s = None \<and>
         step e WorkerDone s = None"
  using assms by (simp add: step_def main_step_def worker_step_def)

text \<open>
  C4 fails on the code where the timer fires. In the sample run the timer fires and the
  shutdown command runs once, but \<^verbatim>\<open>Execute\<close> is not told: nothing is sent on \<^verbatim>\<open>done\<close>, so
  its \<^verbatim>\<open>select\<close> keeps waiting. However much time passes, the states reported stay
  \<open>StartPending\<close>, \<open>Running\<close>, and neither goroutine has a step; only a request from the
  service manager moves the service on to \<open>StopPending\<close>.
\<close>

theorem fired_but_still_running:
  "\<exists>s. exec sample_env fire_run (init sample_now sample_fs) = Some s \<and> reboots s = 1 \<and>
     exited s = None \<and> lifecycle s = [StartPending, Running] \<and>
     (\<forall>ns. \<exists>s'. exec sample_env (map Tick ns) s = Some s' \<and>
        lifecycle s' = [StartPending, Running] \<and>
        step sample_env Main s' = None \<and> step sample_env Worker s' = None \<and>
        step sample_env MainDone s' = None \<and> step sample_env WorkerDone s' = None)"
proof -
  from fire_run_result obtain s where
    s: "exec sample_env fire_run (init sample_now sample_fs) = Some s"
    and f: "reboots s = 1" "mpc s = M_Select" "wpc s = W_Finished" "exited s = None"
      "\<not> done_ready s" "map State (reported s) = [StartPending, Running]"
    by (elim exE conjE)
  have later: "\<exists>s'. exec sample_env (map Tick ns) s = Some s' \<and>
        lifecycle s' = [StartPending, Running] \<and>
        step sample_env Main s' = None \<and> step sample_env Worker s' = None \<and>
        step sample_env MainDone s' = None \<and> step sample_env WorkerDone s' = None" for ns
  proof -
    from ticks_keep_waiting [OF f(4) f(2) f(3) f(5), of sample_env ns] obtain s' where
      s': "exec sample_env (map Tick ns) s = Some s'" "exited s' = None" "mpc s' = M_Select"
        "wpc s' = W_Finished" "\<not> done_ready s'" "reported s' = reported s"
      by (elim exE conjE)
    from s'(2-5) have "step sample_env Main s' = None \<and> step sample_env Worker s' = None \<and>
        step sample_env MainDone s' = None \<and> step sample_env WorkerDone s' = None"
      by (rule waiting_is_blocked)
    moreover have "lifecycle s' = [StartPending, Running]"
      using s'(3,6) f(6) by (simp add: lifecycle_def)
    ultimately show ?thesis using s'(1) by (intro exI [of _ s']) simp
  qed
  have "lifecycle s = [StartPending, Running]"
    using f by (simp add: lifecycle_def)
  with s f later show ?thesis by (intro exI [of _ s]) simp
qed

subsection \<open>Loading the configuration\<close>








subsection \<open>64-bit arithmetic and the restart instant\<close>

lemma wrap64_id: "alpha \<le> x \<Longrightarrow> x \<le> omega \<Longrightarrow> wrap64 x = x"
  by (simp add: wrap64_def alpha_def omega_def)

lemma wrap64_mod: "wrap64 x mod 2 ^ 64 = x mod 2 ^ 64"
proof -
  have "wrap64 x mod 2 ^ 64 = ((x + 2 ^ 63) mod 2 ^ 64 - 2 ^ 63) mod 2 ^ 64"
    by (simp only: wrap64_def)
  also have "\<dots> = (x + 2 ^ 63 - 2 ^ 63) mod 2 ^ 64"
    by (rule mod_diff_left_eq)
  finally show ?thesis by simp
qed

lemma wrap64_cong: "x mod 2 ^ 64 = y mod 2 ^ 64 \<Longrightarrow> wrap64 x = wrap64 y"
proof -
  assume "x mod 2 ^ 64 = y mod 2 ^ 64"
  then have "(x + 2 ^ 63) mod 2 ^ 64 = (y + 2 ^ 63) mod 2 ^ 64"
    by (rule mod_add_cong) simp
  then show ?thesis by (simp only: wrap64_def)
qed

lemma wrap64_day:
  "wrap64 ((a + wrap64 z) * secondsPerDay + b) = wrap64 ((a + z) * secondsPerDay + b)"
proof (rule wrap64_cong)
  have "(a + wrap64 z) mod 2 ^ 64 = (a + z) mod 2 ^ 64"
    using wrap64_mod [of z] by (rule mod_add_cong [OF refl])
  then have "((a + wrap64 z) * secondsPerDay) mod 2 ^ 64 = ((a + z) * secondsPerDay) mod 2 ^ 64"
    by (rule mod_mult_cong) simp
  then show "((a + wrap64 z) * secondsPerDay + b) mod 2 ^ 64
      = ((a + z) * secondsPerDay + b) mod 2 ^ 64"
    by (rule mod_add_cong) simp
qed

lemma Date_plain:
  assumes "1 \<le> mo" "mo \<le> 12" "0 \<le> h" "h < 24" "0 \<le> mi" "mi < 60"
  shows "Date y mo d h mi 0 0 loc
           = unixTime (resolve loc (wrap64 (daysSinceEpoch y mo d * secondsPerDay
               + h * 3600 + mi * 60))) 0"
proof -
  have mo: "(mo - 1) div 12 = 0" "(mo - 1) mod 12 + 1 = mo" using assms by auto
  have mi: "mi div 60 = 0" "mi mod 60 = mi" using assms by auto
  have h: "h div 24 = 0" "h mod 24 = h" using assms by auto
  show ?thesis
    unfolding Date_def Let_def by (simp add: mo mi h Second_def)
qed

lemma restartDateTime_eq:
  assumes "parseClock (At c) = Some (h, mi)"
  shows "restartDateTime c loc now h mi
           = unixTime (resolve loc (wrap64 (wallSeconds c loc now h mi))) 0"
proof -
  obtain y m d where civ: "civilOfDays (localDays loc now) = (y, m, d)"
    by (cases "civilOfDays (localDays loc now)")
  then have days: "daysSinceEpoch y m d = localDays loc now"
    by (rule daysSinceEpoch_civilOfDays)
  from civ have m: "1 \<le> m" "m \<le> 12"
    using monthOfYday_range by (auto simp: civilOfDays_def Let_def split: prod.splits)
  from assms have hm: "0 \<le> h" "h < 24" "0 \<le> mi" "mi < 60"
    using parseClock_range by blast+
  define k where "k = AfterDays c"
  define b where "b = h * 3600 + mi * 60"
  have shift: "daysSinceEpoch y m x = (localDays loc now - d) + x" for x
    using days by (simp add: daysSinceEpoch_def)
  have "restartDateTime c loc now h mi = Date y m (wrap64 (d + k)) h mi 0 0 loc"
    by (simp add: restartDateTime_def Year_def Month_def Day_def civ k_def)
  also have "\<dots> = unixTime (resolve loc (wrap64 (daysSinceEpoch y m (wrap64 (d + k))
      * secondsPerDay + h * 3600 + mi * 60))) 0"
    using m hm by (rule Date_plain)
  also have "wrap64 (daysSinceEpoch y m (wrap64 (d + k)) * secondsPerDay + h * 3600 + mi * 60)
      = wrap64 (((localDays loc now - d) + wrap64 (d + k)) * secondsPerDay + b)"
    by (simp only: shift b_def add.assoc)
  also have "\<dots> = wrap64 (((localDays loc now - d) + (d + k)) * secondsPerDay + b)"
    by (rule wrap64_day)
  also have "((localDays loc now - d) + (d + k)) * secondsPerDay + b = wallSeconds c loc now h mi"
    by (simp add: wallSeconds_def k_def b_def)
  finally show ?thesis .
qed


lemma unixTime_plain:
  "alpha \<le> x + unixToInternal \<Longrightarrow> x + unixToInternal \<le> omega \<Longrightarrow> unixTime x 0 = x * Second"
  by (simp add: unixTime_def wrap64_id)

lemma calc_parsed:
  "parseClock (At c) = Some (h, mi) \<Longrightarrow>
     calculateSleepDuration c loc now = Inr (Sub (restartDateTime c loc now h mi) now)"
  by (simp add: calculateSleepDuration_def)

lemma Sub_nonpos: "t \<le> u \<Longrightarrow> Sub t u \<le> 0"
  by (simp add: Sub_def maxDuration_def minDuration_def)

lemma Sub_in_range:
  "minDuration \<le> t - u \<Longrightarrow> t - u \<le> maxDuration \<Longrightarrow> Sub t u = t - u"
  by (simp add: Sub_def)

lemma lookup_fixed: "tx loc = [] \<Longrightarrow> lookup loc x = (zone0 loc, alpha, omega)"
  by (simp add: lookup_def)

lemma resolve_fixed:
  assumes "tx loc = []" and "alpha \<le> w" and "w \<le> omega"
    and "alpha \<le> w - zone0 loc" and "w - zone0 loc \<le> omega"
  shows "resolve loc w + offsetAt loc (resolve loc w) = w"
proof -
  have "wrap64 (w - zone0 loc) = w - zone0 loc" using assms(4,5) by (rule wrap64_id)
  then have "resolve loc w = w - zone0 loc"
    by (simp add: resolve_def lookup_fixed [OF assms(1)] Let_def offsetAt_def)
  moreover have "offsetAt loc x = zone0 loc" for x
    by (simp add: offsetAt_def lookup_fixed [OF assms(1)])
  ultimately show ?thesis by simp
qed

subsection \<open>The sleep duration\<close>

lemma parse_2350: "parseClock ''23:50'' = Some (23, 50)"
  by code_simp

lemma far_date:
  "Date (Year UTC sample_now) (Month UTC sample_now) (Day UTC sample_now + AfterDays far_config)
     23 50 0 0 UTC = 18984153000000000000"
  by code_simp

lemma far_duration: "calculateSleepDuration far_config UTC sample_now = Inr 9223372036854775807"
  by code_simp

text \<open>
  C3, as stated, fails: with \<^verbatim>\<open>after_days: 200000\<close> the instant that \<^verbatim>\<open>time.Date\<close> returns lies
  more than 2^63 - 1 nanoseconds after now, and the sleep duration returned is the largest
  \<^verbatim>\<open>time.Duration\<close>, not that instant minus now.
\<close>

theorem far_future_saturates:
  "parseClock (At far_config) = Some (23, 50) \<and>
   calculateSleepDuration far_config UTC sample_now = Inr maxDuration \<and>
   Date (Year UTC sample_now) (Month UTC sample_now)
     (Day UTC sample_now + AfterDays far_config) 23 50 0 0 UTC - sample_now
       = 17280049800000000000 \<and>
   calculateSleepDuration far_config UTC sample_now \<noteq>
     Inr (Date (Year UTC sample_now) (Month UTC sample_now)
            (Day UTC sample_now + AfterDays far_config) 23 50 0 0 UTC - sample_now)"
proof -
  have "parseClock (At far_config) = Some (23, 50)"
    by (simp add: far_config_def parse_2350)
  moreover have "Date (Year UTC sample_now) (Month UTC sample_now)
      (Day UTC sample_now + AfterDays far_config) 23 50 0 0 UTC - sample_now
        = 17280049800000000000"
    unfolding far_date by (simp add: sample_now_def)
  ultimately show ?thesis using far_duration by (simp add: maxDuration_def)
qed

lemma example_days: "daysSinceEpoch 2024 1 1 = 19723" "daysSinceEpoch 2024 10 27 = 20023"
  by code_simp+

lemma example_fire:
  "Date 2024 10 27 23 50 0 0 loc
     = unixTime (resolve loc (wrap64 (20023 * secondsPerDay + 23 * 3600 + 50 * 60))) 0"
  using Date_plain [of 10 23 50 2024 27 loc] by (simp add: example_days)

text \<open>
  C3, amended. Whenever the time of day parses, \<^verbatim>\<open>calculateSleepDuration\<close> returns
  \<^verbatim>\<open>time.Date(now.Year(), now.Month(), now.Day()+AfterDays, hour, minute, 0, 0, loc).Sub(now)\<close>,
  the sum of the days being an addition of 64-bit integers. Whenever, moreover, that sum
  does not overflow and the instant \<^verbatim>\<open>time.Date\<close> returns minus now fits into a
  \<^verbatim>\<open>time.Duration\<close>, the result is exactly that instant minus now. The source computes
  nothing else from its inputs, so the same inputs give the same result. For any now on
  2024-01-01 on the wall clock of its location (10:00:00 for one), 300 days and "23:50",
  the restart instant is \<^verbatim>\<open>time.Date(2024, 10, 27, 23, 50, 0, 0, loc)\<close>, 2024-10-27T23:50:00 in
  that location.
\<close>

theorem sleep_duration_in_range:
  "(parseClock (At c) = Some (h, mi) \<longrightarrow>
      calculateSleepDuration c loc now
        = Inr (Sub (Date (Year loc now) (Month loc now) (wrap64 (Day loc now + AfterDays c))
                      h mi 0 0 loc) now)) \<and>
   (parseClock (At c) = Some (h, mi) \<and>
    alpha \<le> Day loc now + AfterDays c \<and> Day loc now + AfterDays c \<le> omega \<and>
    minDuration \<le>
      Date (Year loc now) (Month loc now) (Day loc now + AfterDays c) h mi 0 0 loc - now \<and>
    Date (Year loc now) (Month loc now) (Day loc now + AfterDays c) h mi 0 0 loc - now
      \<le> maxDuration
    \<longrightarrow> calculateSleepDuration c loc now
          = Inr (Date (Year loc now) (Month loc now) (Day loc now + AfterDays c) h mi 0 0 loc
                 - now)) \<and>
   (localDays ln t = daysSinceEpoch 2024 1 1 \<longrightarrow>
      restartDateTime default_config ln t 23 50 = Date 2024 10 27 23 50 0 0 ln \<and>
      calculateSleepDuration default_config ln t
        = Inr (Sub (Date 2024 10 27 23 50 0 0 ln) t))"
proof -
  have always: "parseClock (At c) = Some (h, mi) \<longrightarrow>
      calculateSleepDuration c loc now
        = Inr (Sub (Date (Year loc now) (Month loc now) (wrap64 (Day loc now + AfterDays c))
                      h mi 0 0 loc) now)"
    by (simp add: calc_parsed restartDateTime_def)
  have fits: "parseClock (At c) = Some (h, mi) \<and>
    alpha \<le> Day loc now + AfterDays c \<and> Day loc now + AfterDays c \<le> omega \<and>
    minDuration \<le>
      Date (Year loc now) (Month loc now) (Day loc now + AfterDays c) h mi 0 0 loc - now \<and>
    Date (Year loc now) (Month loc now) (Day loc now + AfterDays c) h mi 0 0 loc - now
      \<le> maxDuration
    \<longrightarrow> calculateSleepDuration c loc now
          = Inr (Date (Year loc now) (Month loc now) (Day loc now + AfterDays c) h mi 0 0 loc
                 - now)"
    by (simp add: calc_parsed restartDateTime_def wrap64_id Sub_in_range)
  have p: "parseClock (At default_config) = Some (23, 50)"
    by (simp add: default_config_def parse_2350)
  have example: "localDays ln t = daysSinceEpoch 2024 1 1 \<longrightarrow>
      restartDateTime default_config ln t 23 50 = Date 2024 10 27 23 50 0 0 ln \<and>
      calculateSleepDuration default_config ln t
        = Inr (Sub (Date 2024 10 27 23 50 0 0 ln) t)"
  proof
    assume day: "localDays ln t = daysSinceEpoch 2024 1 1"
    have "wallSeconds default_config ln t 23 50 = 20023 * secondsPerDay + 23 * 3600 + 50 * 60"
      by (simp add: wallSeconds_def day example_days default_config_def)
    then have fire: "restartDateTime default_config ln t 23 50 = Date 2024 10 27 23 50 0 0 ln"
      by (simp only: restartDateTime_eq [OF p] example_fire)
    then show "restartDateTime default_config ln t 23 50 = Date 2024 10 27 23 50 0 0 ln \<and>
      calculateSleepDuration default_config ln t
        = Inr (Sub (Date 2024 10 27 23 50 0 0 ln) t)"
      by (simp add: calc_parsed [OF p])
  qed
  from always fits example show ?thesis by (intro conjI)
qed

lemma default_date:
  "Date (Year UTC sample_now) (Month UTC sample_now)
     (Day UTC sample_now + AfterDays default_config) 23 50 0 0 UTC = 1730073000000000000"
  by code_simp

lemma default_day: "Day UTC sample_now + AfterDays default_config = 301"
  by code_simp

lemma new_york_example:
  "localDays new_york new_york_now = daysSinceEpoch 2024 1 1"
  "localSecondOfDay new_york new_york_now = 36000"
  "Date 2024 10 27 23 50 0 0 new_york = 1730087400000000000"
  "Sub 1730087400000000000 new_york_now = 25966200000000000"
  "civilOfDays (localDays new_york 1730087400000000000) = (2024, 10, 27)"
  "localSecondOfDay new_york 1730087400000000000 = 85800"
  by code_simp+

theorem sleep_duration_in_range_witness:
  "parseClock (At default_config) = Some (23, 50) \<and>
   calculateSleepDuration default_config UTC sample_now = Inr 25969800000000000 \<and>
   localDays new_york new_york_now = daysSinceEpoch 2024 1 1 \<and>
   restartDateTime default_config new_york new_york_now 23 50
     = Date 2024 10 27 23 50 0 0 new_york \<and>
   calculateSleepDuration default_config new_york new_york_now = Inr 25966200000000000 \<and>
   civilOfDays (localDays new_york (restartDateTime default_config new_york new_york_now 23 50))
     = (2024, 10, 27) \<and>
   localSecondOfDay new_york (restartDateTime default_config new_york new_york_now 23 50)
     = 85800"
proof -
  have p: "parseClock (At default_config) = Some (23, 50)"
    by (simp add: default_config_def parse_2350)
  have day: "alpha \<le> Day UTC sample_now + AfterDays default_config"
    "Day UTC sample_now + AfterDays default_config \<le> omega"
    unfolding default_day by (simp_all add: alpha_def omega_def)
  have fits: "minDuration \<le> Date (Year UTC sample_now) (Month UTC sample_now)
      (Day UTC sample_now + AfterDays default_config) 23 50 0 0 UTC - sample_now"
    "Date (Year UTC sample_now) (Month UTC sample_now)
      (Day UTC sample_now + AfterDays default_config) 23 50 0 0 UTC - sample_now
        \<le> maxDuration"
    unfolding default_date by (simp_all add: minDuration_def maxDuration_def sample_now_def)
  note inst = sleep_duration_in_range
    [of default_config 23 50 UTC sample_now new_york new_york_now]
  from inst p day fits have "calculateSleepDuration default_config UTC sample_now
      = Inr (Date (Year UTC sample_now) (Month UTC sample_now)
      (Day UTC sample_now + AfterDays default_config) 23 50 0 0 UTC - sample_now)"
    by blast
  then have "calculateSleepDuration default_config UTC sample_now
      = Inr (1730073000000000000 - sample_now)"
    by (simp only: default_date)
  moreover from inst new_york_example(1)
  have "restartDateTime default_config new_york new_york_now 23 50
          = Date 2024 10 27 23 50 0 0 new_york"
    "calculateSleepDuration default_config new_york new_york_now
          = Inr (Sub (Date 2024 10 27 23 50 0 0 new_york) new_york_now)"
    by simp_all
  ultimately show ?thesis
    using p new_york_example by (simp add: sample_now_def)
qed

text \<open>
  A day of 23 hours: in New York on 2024-03-09 at 10:00, with \<^verbatim>\<open>after_days: 1\<close> and
  \<^verbatim>\<open>at: "23:50"\<close>, the restart instant is 23:50 on the day the clocks are set forward, 36
  hours and 50 minutes later.
\<close>

lemma short_day_example:
  "calculateSleepDuration \<lparr>AfterDays = 1, At = ''23:50''\<rparr> new_york 1709996400000000000
     = Inr 132600000000000"
  by code_simp

subsection \<open>Negative and large numbers of days\<close>





subsection \<open>A time of day that has passed\<close>

lemma fallback_facts:
  "parseClock ''02:30'' = Some (2, 30)"
  "localSecondOfDay berlin fallback_now = 9600"
  "calculateSleepDuration fallback_config berlin fallback_now = Inr 3000000000000"
  by code_simp+

text \<open>
  C8, as stated, fails: in Berlin on 2024-10-27 at 02:40, before the clocks are set back,
  with \<open>AfterDays = 0\<close> and the time of day 02:30, ten minutes earlier on the wall clock,
  \<^verbatim>\<open>time.Date\<close> resolves 02:30 to its second occurrence, after the change: the sleep
  duration is 50 minutes, not at most zero.
\<close>

theorem clocks_set_back:
  "AfterDays fallback_config = 0 \<and> parseClock (At fallback_config) = Some (2, 30) \<and>
   2 * 3600 + 30 * 60 < localSecondOfDay berlin fallback_now \<and>
   calculateSleepDuration fallback_config berlin fallback_now = Inr 3000000000000 \<and>
   \<not> (3000000000000 \<le> (0::int))"
proof -
  have "AfterDays fallback_config = 0" "parseClock (At fallback_config) = Some (2, 30)"
    by (simp_all add: fallback_config_def fallback_facts(1))
  with fallback_facts(2,3) show ?thesis by simp
qed

lemma lookupFrom_until:
  "lookupFrom x (off, st, en) l = (off', st', en') \<Longrightarrow> x < en \<Longrightarrow> x < en'"
  by (induction l arbitrary: off st) (auto split: if_splits)

lemma lookup_until: "lookup loc x = (off, st, en) \<Longrightarrow> x < omega \<Longrightarrow> x < en"
  unfolding lookup_def by (rule lookupFrom_until)

lemma resolve_same_period:
  assumes "lookup loc w = (off, st, en)" and "st \<le> w - off" and "w - off < en"
    and "alpha \<le> w - off" and "w - off \<le> omega"
  shows "resolve loc w = w - off"
proof -
  have "wrap64 (w - off) = w - off" using assms(4,5) by (rule wrap64_id)
  with assms(1-3) show ?thesis by (simp add: resolve_def Let_def)
qed

lemma restart_passed:
  assumes "AfterDays c = 0" and "parseClock (At c) = Some (h, mi)"
    and "h * 3600 + mi * 60 \<le> localSecondOfDay loc now"
    and "lookup loc (now div Second) = (off, st, en)"
    and "lookup loc (wallSeconds c loc now h mi) = (off, st, en)"
    and "st \<le> wallSeconds c loc now h mi - off"
    and "0 \<le> now" and "now div Second < 2 ^ 62" and "\<bar>off\<bar> \<le> 86400"
  shows "restartDateTime c loc now h mi \<le> now"
proof -
  define n where "n = now div Second"
  define w where "w = wallSeconds c loc now h mi"
  define tod where "tod = h * 3600 + mi * 60"
  define lsod where "lsod = localSecondOfDay loc now"
  from assms(2) have hm: "0 \<le> h" "h < 24" "0 \<le> mi" "mi < 60"
    using parseClock_range by blast+
  have tod: "0 \<le> tod" using hm by (simp add: tod_def)
  have off: "offsetAt loc n = off" using assms(4) by (simp add: offsetAt_def n_def)
  have lsod: "lsod < 86400"
    by (simp add: lsod_def localSecondOfDay_def secondsPerDay_def)
  have "localDays loc now * 86400 + lsod = n + off"
    by (simp add: localDays_def lsod_def localSecondOfDay_def secondsPerDay_def off
          n_def [symmetric])
  moreover have "w = localDays loc now * 86400 + tod"
    by (simp add: w_def wallSeconds_def assms(1) secondsPerDay_def tod_def)
  ultimately have w: "w - off = n - (lsod - tod)" by simp
  have le: "tod \<le> lsod" using assms(3) by (simp add: tod_def lsod_def)
  have n: "0 \<le> n" "n < 2 ^ 62"
    using assms(7,8) by (simp_all add: n_def Second_def pos_imp_zdiv_nonneg_iff)
  have upper: "w - off \<le> n" using w le by simp
  have lower: "n - 86400 < w - off" using w tod lsod by simp
  have "n < omega" using n by (simp add: omega_def)
  with assms(4) have "n < en" unfolding n_def [symmetric] by (rule lookup_until)
  with upper have until: "w - off < en" by simp
  have r1: "alpha \<le> w - off" "w - off \<le> omega"
    using lower upper n by (simp_all add: alpha_def omega_def)
  have r2: "alpha \<le> w" "w \<le> omega"
    using lower upper n assms(9) by (simp_all add: alpha_def omega_def)
  have r3: "alpha \<le> w - off + unixToInternal" "w - off + unixToInternal \<le> omega"
    using lower upper n by (simp_all add: alpha_def omega_def unixToInternal_def)
  have "resolve loc w = w - off"
    using assms(5,6) until r1 unfolding w_def [symmetric] by (rule resolve_same_period)
  moreover have "wrap64 w = w" using r2 by (rule wrap64_id)
  ultimately have "restartDateTime c loc now h mi = unixTime (w - off) 0"
    by (simp add: restartDateTime_eq [OF assms(2)] w_def [symmetric])
  also have "\<dots> = (w - off) * Second" using r3 by (rule unixTime_plain)
  also have "\<dots> \<le> n * Second" using upper by (simp add: Second_def)
  also have "\<dots> \<le> now" by (simp add: n_def Second_def)
  finally show ?thesis .
qed

lemma calc_nonpos:
  assumes "AfterDays c = 0" and "parseClock (At c) = Some (h, mi)"
    and "h * 3600 + mi * 60 \<le> localSecondOfDay loc now"
    and "lookup loc (now div Second) = (off, st, en)"
    and "lookup loc (wallSeconds c loc now h mi) = (off, st, en)"
    and "st \<le> wallSeconds c loc now h mi - off"
    and "0 \<le> now" and "now div Second < 2 ^ 62" and "\<bar>off\<bar> \<le> 86400"
  shows "\<exists>d. calculateSleepDuration c loc now = Inr d \<and> d \<le> 0"
proof -
  from assms have "restartDateTime c loc now h mi \<le> now"
    by (rule restart_passed)
  then have "Sub (restartDateTime c loc now h mi) now \<le> 0" by (rule Sub_nonpos)
  with assms(2) show ?thesis by (simp add: calc_parsed)
qed

lemma calc_nonpos_fixed:
  assumes "tx loc = []" and "AfterDays c = 0" and "parseClock (At c) = Some (h, mi)"
    and "h * 3600 + mi * 60 \<le> localSecondOfDay loc now"
    and "0 \<le> now" and "now div Second < 2 ^ 62" and "\<bar>zone0 loc\<bar> \<le> 86400"
  shows "\<exists>d. calculateSleepDuration c loc now = Inr d \<and> d \<le> 0"
proof -
  define n where "n = now div Second"
  define off where "off = zone0 loc"
  from assms(3) have hm: "0 \<le> h" "0 \<le> mi"
    using parseClock_range by blast+
  have n: "0 \<le> n" using assms(5) by (simp add: n_def Second_def pos_imp_zdiv_nonneg_iff)
  have look: "lookup loc x = (off, alpha, omega)" for x
    unfolding off_def using assms(1) by (rule lookup_fixed)
  have "(n + off) div 86400 * 86400 = n + off - (n + off) mod 86400"
    by (simp add: minus_mod_eq_div_mult [symmetric])
  moreover have "(n + off) mod 86400 < 86400" by simp
  ultimately have "n + off - 86400 < (n + off) div 86400 * 86400" by simp
  moreover have "wallSeconds c loc now h mi
      = (n + off) div 86400 * 86400 + h * 3600 + mi * 60"
    by (simp add: wallSeconds_def assms(2) localDays_def offsetAt_def look secondsPerDay_def
          n_def)
  ultimately have "n - 86400 < wallSeconds c loc now h mi - off" using hm by simp
  with n have "alpha \<le> wallSeconds c loc now h mi - off" by (simp add: alpha_def)
  with assms(2-4) look look assms(5,6) show ?thesis
    using assms(7) unfolding off_def [symmetric] by (intro calc_nonpos)
qed

text \<open>
  C8, amended. Let \<open>AfterDays = 0\<close> and the time of day be not later than the time of day
  that now shows on the wall clock. Let, moreover, \<^verbatim>\<open>time.Date\<close> find for the wall-clock
  reading the zone period that is in force now, and the instant it resolves the reading
  to be not before the start of that period. (Now is taken after 1970 and less than 2^62
  seconds after it, the offset at most a day.) Then the sleep duration is at most zero; a
  location without transitions has one period only, and there the duration is at most
  zero without those two conditions (lemma \<open>calc_nonpos_fixed\<close>). The timer armed with it is due at once: from the state
  in which the timer goroutine is about to compute the duration, its next steps compute,
  log and arm, the timer's case of the \<^verbatim>\<open>select\<close> can be taken without any advance of the
  clock, and \<^verbatim>\<open>reboot()\<close> runs. \<open>i\<close> and \<open>j\<close> are the nanoseconds that pass between the
  goroutine's steps, zero included.
\<close>

theorem past_time_fires_at_once:
  assumes "AfterDays c = 0" and "parseClock (At c) = Some (h, mi)"
    and "h * 3600 + mi * 60 \<le> localSecondOfDay (location e) now"
    and "lookup (location e) (now div Second) = (off, st, en)"
    and "lookup (location e) (wallSeconds c (location e) now h mi) = (off, st, en)"
    and "st \<le> wallSeconds c (location e) now h mi - off"
    and "0 \<le> now" and "now div Second < 2 ^ 62" and "\<bar>off\<bar> \<le> 86400"
    and "exited s = None" and "wpc s = W_Calc" and "cfg s = c" and "clock s = now"
  shows "\<exists>d. calculateSleepDuration c (location e) now = Inr d \<and> d \<le> 0 \<and>
           (\<exists>s'. exec e [Worker, Tick i, Worker, Tick j, Worker] s = Some s' \<and>
                 wpc s' = W_Select (clock s' + d) \<and> clock s' = now + int i + int j) \<and>
           (\<exists>s''. exec e [Worker, Tick i, Worker, Tick j, Worker, Worker, Worker] s = Some s'' \<and>
                 reboots s'' = reboots s + 1 \<and> clock s'' = now + int i + int j)"
proof -
  from calc_nonpos [OF assms(1-9)] obtain d where
    d: "calculateSleepDuration c (location e) now = Inr d" "d \<le> 0" by (elim exE conjE)
  have arm: "exec e [Worker, Tick i, Worker, Tick j, Worker] s
      = Some (s\<lparr>wpc := W_Select (now + int i + int j + d), clock := now + int i + int j,
                 logged := logged s @ [RebootAt (now + int i + d)]\<rparr>)"
    using assms(10-13) d(1)
    by (simp add: step_def worker_step_def println_def)
  have fire: "exec e [Worker, Tick i, Worker, Tick j, Worker, Worker, Worker] s
      = Some ((reboot e (s\<lparr>logged := logged s @ [RebootAt (now + int i + d)],
                 clock := now + int i + int j, wpc := W_Reboot\<rparr>))\<lparr>wpc := W_Finished\<rparr>)"
    using assms(10-13) d
    by (simp add: step_def worker_step_def println_def)
  have "reboots (reboot e u) = reboots u + 1" "clock (reboot e u) = clock u" for u
    by (simp_all add: reboot_def println_def fatalf_def Let_def)
  with d arm fire show ?thesis by simp
qed

lemma morning_facts:
  "parseClock ''09:00'' = Some (9, 0)"
  "localSecondOfDay berlin berlin_morning = 36000"
  "lookup berlin (berlin_morning div Second) = (3600, 1729990800, omega)"
  "wallSeconds \<lparr>AfterDays = 0, At = ''09:00''\<rparr> berlin berlin_morning 9 0 = 1730019600"
  "lookup berlin 1730019600 = (3600, 1729990800, omega)"
  "calculateSleepDuration \<lparr>AfterDays = 0, At = ''09:00''\<rparr> berlin berlin_morning
     = Inr (- 3600000000000)"
  by code_simp+

lemma morning_startup:
  "map_option (\<lambda>s. (clock s, wpc s, exited s, cfg s, reboots s))
     (exec berlin_env [Main, Main, Main, Main] (init berlin_morning (sample_fs_at ''09:00''))) =
   Some (berlin_morning, W_Calc, None, \<lparr>AfterDays = 0, At = ''09:00''\<rparr>, 0)"
  by (simp add: run_defs sample_defs berlin_env_def Let_def)

theorem past_time_fires_at_once_witness:
  "\<exists>s. exec berlin_env [Main, Main, Main, Main] (init berlin_morning (sample_fs_at ''09:00''))
         = Some s \<and>
       calculateSleepDuration (cfg s) berlin berlin_morning = Inr (- 3600000000000) \<and>
       (\<exists>s''. exec berlin_env [Worker, Tick 0, Worker, Tick 0, Worker, Worker, Worker] s
                = Some s'' \<and> reboots s'' = 1 \<and> clock s'' = berlin_morning)"
proof -
  from morning_startup obtain s where
    s: "exec berlin_env [Main, Main, Main, Main] (init berlin_morning (sample_fs_at ''09:00''))
          = Some s"
    and f: "clock s = berlin_morning" "wpc s = W_Calc" "exited s = None"
      "cfg s = \<lparr>AfterDays = 0, At = ''09:00''\<rparr>" "reboots s = 0"
    by auto
  have z: "location berlin_env = berlin" by (simp add: berlin_env_def)
  have h: "AfterDays (cfg s) = 0" "parseClock (At (cfg s)) = Some (9, 0)"
    "9 * 3600 + 0 * 60 \<le> localSecondOfDay (location berlin_env) berlin_morning"
    "lookup (location berlin_env) (berlin_morning div Second) = (3600, 1729990800, omega)"
    "lookup (location berlin_env) (wallSeconds (cfg s) (location berlin_env) berlin_morning 9 0)
       = (3600, 1729990800, omega)"
    "1729990800 \<le> wallSeconds (cfg s) (location berlin_env) berlin_morning 9 0 - 3600"
    "0 \<le> berlin_morning" "berlin_morning div Second < 2 ^ 62" "\<bar>3600 :: int\<bar> \<le> 86400"
    by (simp_all add: f z morning_facts) (simp_all add: berlin_morning_def Second_def)
  from past_time_fires_at_once [OF h f(3) f(2) refl f(1), of 0 0] s f show ?thesis
    by (auto simp: z morning_facts)
qed

end
